theory Spec2Isabelle
  imports Main "HOL-Library.AList" "HOL-Library.Char_ord" "HOL-Library.List_Lexorder"
begin

section \<open>Common model: time stamps, errors, ordered dictionaries\<close>

text \<open>
  A \<^verbatim>\<open>datetime\<close> is only ever compared for equality and copied; it is modelled as a
  natural number, \<^verbatim>\<open>datetime.min\<close> being 0.
\<close>

type_synonym datetime = nat

text \<open>Every exception the Python code can raise is a value of this type.\<close>

datatype error =
    HTTPError string
  | MissingKey string
  | ValueError
  | NotFound string
  | GzipError
  | MappingIOError
  | GitError

text \<open>
  A Python \<^verbatim>\<open>dict\<close> keeps insertion order: assigning to a present key keeps the key's
  position, assigning to an absent key appends it. This is an association list read
  with \<^const>\<open>map_of\<close> and written with \<^const>\<open>AList.update\<close>.
\<close>

type_synonym ('k, 'v) dict = "('k \<times> 'v) list"

text \<open>\<^verbatim>\<open>list.index(x)\<close>: the first position of \<open>x\<close>; ValueError (here None) when absent.\<close>

fun index_of :: "'a list \<Rightarrow> 'a \<Rightarrow> nat option" where
  "index_of [] x = None"
| "index_of (y # ys) x = (if y = x then Some 0 else map_option Suc (index_of ys x))"

text \<open>
  Modelled from the spec: \<^verbatim>\<open>util.sort_dict\<close> is imported by fabric.py and combined.py but
  its module is not among the sources. The spec says the maps are "re-sorted by
  order-list index" and "re-sorted by jar_key": the items of the dictionary are sorted
  (stably, as Python's \<^verbatim>\<open>sorted\<close> does) by the given key function, by the items
  themselves when no key is given. A key function that raises makes the call raise;
  the two key functions used are \<^verbatim>\<open>list.index\<close> lookups, which raise ValueError.
\<close>

definition sort_dict_key :: "('k \<times> 'v \<Rightarrow> nat option) \<Rightarrow> ('k, 'v) dict \<Rightarrow> error + ('k, 'v) dict" where
  "sort_dict_key key d =
     (if None \<in> set (map key d) then Inl ValueError
      else Inr (sort_key (\<lambda>i. the (key i)) d))"

text \<open>
  Modelled from the spec: \<^verbatim>\<open>util.sort_dict\<close> without a key function, as
  \<^verbatim>\<open>CombinedCombined.update\<close> calls it to "re-sort the jar map by jar_key". The items
  are pairs with pairwise different keys, so sorting the items sorts by key; strings
  compare character by character.
\<close>

definition sort_dict :: "('k::linorder, 'v) dict \<Rightarrow> ('k, 'v) dict" where
  "sort_dict d = sort_key fst d"

section \<open>fabric.py: the release registry\<close>

record FabricYarn =
  fy_version_file_id :: string
  fy_separator :: string
  fy_build :: int
  fy_fabric_name :: string

definition YARN_MAVEN_URL :: string where
  "YARN_MAVEN_URL = ''https://maven.fabricmc.net/net/fabricmc/yarn''"

definition FARBRIC_VERSIONS_URL :: string where
  "FARBRIC_VERSIONS_URL = ''https://meta.fabricmc.net/v2/versions''"

definition tiny_gz_url :: "string \<Rightarrow> string" where
  "tiny_gz_url name = YARN_MAVEN_URL @ ''/'' @ name @ ''/yarn-'' @ name @ ''-tiny.gz''"

text \<open>One element of the feed's \<^verbatim>\<open>mappings\<close> array; an absent key is None.\<close>

record json_mapping =
  j_gameVersion :: "string option"
  j_separator :: "string option"
  j_build :: "int option"
  j_version :: "string option"

definition from_json :: "json_mapping \<Rightarrow> error + FabricYarn" where
  "from_json data =
     (case j_gameVersion data of None \<Rightarrow> Inl (MissingKey ''gameVersion'') | Some g \<Rightarrow>
      case j_separator data of None \<Rightarrow> Inl (MissingKey ''separator'') | Some s \<Rightarrow>
      case j_build data of None \<Rightarrow> Inl (MissingKey ''build'') | Some b \<Rightarrow>
      case j_version data of None \<Rightarrow> Inl (MissingKey ''version'') | Some v \<Rightarrow>
        Inr \<lparr>fy_version_file_id = g, fy_separator = s, fy_build = b, fy_fabric_name = v\<rparr>)"

record Fabric =
  f_timestamp :: datetime
  f_yarn :: "(string, FabricYarn) dict"
  sorted_version_file_ids :: "string list"

definition Fabric_empty :: Fabric where
  "Fabric_empty = \<lparr>f_timestamp = 0, f_yarn = [], sorted_version_file_ids = []\<rparr>"

text \<open>The body of the loop of \<^verbatim>\<open>Fabric.update\<close>, on the state and the dirty flag.\<close>

definition Fabric_update_entry :: "FabricYarn \<Rightarrow> Fabric \<times> bool \<Rightarrow> Fabric \<times> bool" where
  "Fabric_update_entry fabric_yarn s =
     (let self = fst s; dirty = snd s; k = fy_version_file_id fabric_yarn;
          self1 = (if k \<notin> set (sorted_version_file_ids self)
                   then self\<lparr>sorted_version_file_ids := sorted_version_file_ids self @ [k]\<rparr>
                   else self)
      in case map_of (f_yarn self1) k of
           None \<Rightarrow> (self1\<lparr>f_yarn := AList.update k fabric_yarn (f_yarn self1)\<rparr>, True)
         | Some stored \<Rightarrow>
             if fabric_yarn \<noteq> stored \<and> fy_build fabric_yarn > fy_build stored
             then (self1\<lparr>f_yarn := AList.update k fabric_yarn (f_yarn self1)\<rparr>, True)
             else (self1, dirty))"

fun Fabric_update_loop :: "json_mapping list \<Rightarrow> Fabric \<times> bool \<Rightarrow> error + Fabric \<times> bool" where
  "Fabric_update_loop [] s = Inr s"
| "Fabric_update_loop (mapping # rest) s =
     (case from_json mapping of
        Inl e \<Rightarrow> Inl e
      | Inr fabric_yarn \<Rightarrow> Fabric_update_loop rest (Fabric_update_entry fabric_yarn s))"

text \<open>
  \<^verbatim>\<open>Fabric.update\<close>. The response of the feed is None when \<^verbatim>\<open>raise_for_status\<close> raises,
  otherwise the list under \<^verbatim>\<open>"mappings"\<close>.
\<close>

definition Fabric_update :: "json_mapping list option \<Rightarrow> Fabric \<Rightarrow> error + Fabric \<times> bool" where
  "Fabric_update response self =
     (case response of
        None \<Rightarrow> Inl (HTTPError FARBRIC_VERSIONS_URL)
      | Some mappings \<Rightarrow>
          (case Fabric_update_loop mappings (self, False) of
             Inl e \<Rightarrow> Inl e
           | Inr (self1, dirty) \<Rightarrow>
               if dirty
               then (case sort_dict_key (\<lambda>i. index_of (sorted_version_file_ids self1) (fst i))
                            (f_yarn self1) of
                       Inl e \<Rightarrow> Inl e
                     | Inr y \<Rightarrow> Inr (self1\<lparr>f_yarn := y\<rparr>, dirty))
               else Inr (self1, dirty)))"


text \<open>
  The replacement rule in the words of the specification: an absent entry is stored, a
  present one is replaced only if the fetched entry differs and has a strictly greater
  build.
\<close>

definition spec_refresh_rule :: "FabricYarn option \<Rightarrow> FabricYarn \<Rightarrow> FabricYarn option" where
  "spec_refresh_rule cur fetched =
     (case cur of
        None \<Rightarrow> Some fetched
      | Some stored \<Rightarrow>
          if fetched \<noteq> stored \<and> fy_build fetched > fy_build stored then Some fetched
          else Some stored)"

section \<open>jardescs.py: the description source\<close>

record JarDescsMapping =
  jm_version_id :: string
  jm_version_file_id :: string
  jm_version_release_time :: datetime
  jm_jar_key :: string
  jm_jar_sha1_meta :: string

definition MAPPINGS_DIR :: string where
  "MAPPINGS_DIR = ''mappings''"

definition JAR_DESCS_DIR :: string where
  "JAR_DESCS_DIR = ''minecraft-jars-java-descriptions''"

text \<open>Paths are written relative to the directory of the scripts, which is the working directory.\<close>

definition jm_path :: "JarDescsMapping \<Rightarrow> string" where
  "jm_path self =
     JAR_DESCS_DIR @ ''/mappings/'' @ jm_version_id self @ ''-'' @ jm_jar_key self @ ''.tiny''"

record JarDescs =
  jd_timestamp :: datetime
  jd_mappings :: "(string, (string, JarDescsMapping) dict) dict"

definition JarDescs_all :: "JarDescs \<Rightarrow> JarDescsMapping list" where
  "JarDescs_all self = concat (map (\<lambda>version. map snd (snd version)) (jd_mappings self))"

definition get_version_id :: "JarDescs \<Rightarrow> string \<Rightarrow> error + string" where
  "get_version_id self version =
     (case find (\<lambda>jar. version \<in> set [jm_version_id jar, jm_version_file_id jar])
             (JarDescs_all self) of
        None \<Rightarrow> Inl (NotFound version)
      | Some jar \<Rightarrow> Inr (jm_version_id jar))"

definition get_version_release_time :: "JarDescs \<Rightarrow> string \<Rightarrow> error + datetime" where
  "get_version_release_time self version =
     (case find (\<lambda>jar. version \<in> set [jm_version_id jar, jm_version_file_id jar])
             (JarDescs_all self) of
        None \<Rightarrow> Inl (NotFound version)
      | Some jar \<Rightarrow> Inr (jm_version_release_time jar))"

definition get_jars :: "JarDescs \<Rightarrow> string \<Rightarrow> error + JarDescsMapping list" where
  "get_jars self version =
     (case get_version_id self version of
        Inl e \<Rightarrow> Inl e
      | Inr version_id \<Rightarrow>
          (case map_of (jd_mappings self) version_id of
             None \<Rightarrow> Inl (NotFound version)
           | Some jars \<Rightarrow> Inr (map snd jars)))"

section \<open>combined.py: the outside world\<close>

text \<open>
  What the reconciler does to the outside is recorded in a world: the files of the
  mappings directory and the trace of the requests sent, the files written and the
  merge tool's invocations, oldest first.
\<close>

datatype event =
    Get string
  | WriteBytes string string
  | WriteText string string
  | Mappingio "string list"

record world =
  files :: "string \<Rightarrow> string option"
  trace :: "event list"

text \<open>
  What the outside answers: \<open>http\<close> is the body of a successful GET (None when
  \<^verbatim>\<open>raise_for_status\<close> raises), \<open>java\<close> the exit code of the merge tool on its arguments.
  The library functions \<^verbatim>\<open>hashlib.sha1(...).hexdigest()\<close> and \<^verbatim>\<open>gzip\<close> followed by
  \<^verbatim>\<open>decode("utf-8")\<close> (None when either raises) are parameters as well.
\<close>

record env =
  http :: "string \<Rightarrow> string option"
  sha1_hexdigest :: "string \<Rightarrow> string"
  gunzip_utf8 :: "string \<Rightarrow> string option"
  java :: "string list \<Rightarrow> int"

definition log_event :: "event \<Rightarrow> world \<Rightarrow> world" where
  "log_event e w = w\<lparr>trace := trace w @ [e]\<rparr>"

definition write_file :: "string \<Rightarrow> string \<Rightarrow> world \<Rightarrow> world" where
  "write_file p c w = w\<lparr>files := (files w)(p \<mapsto> c)\<rparr>"

section \<open>combined.py: jars and yarn of a version\<close>

type_synonym CombinedJarDesc = JarDescsMapping

definition out_path :: "CombinedJarDesc \<Rightarrow> string" where
  "out_path self = MAPPINGS_DIR @ ''/'' @ jm_version_id self @ ''-'' @ jm_jar_key self @ ''.json''"

definition from_jar_descs_mapping :: "JarDescsMapping \<Rightarrow> CombinedJarDesc" where
  "from_jar_descs_mapping jar_descs_mapping = jar_descs_mapping"

record CombinedYarn =
  cy_version_id :: string
  cy_version_file_id :: string
  cy_version_release_time :: datetime
  cy_separator :: string
  cy_build :: int
  cy_fabric_name :: string

definition cy_path :: "CombinedYarn \<Rightarrow> string" where
  "cy_path self = MAPPINGS_DIR @ ''/'' @ cy_version_id self @ ''-yarn.tiny''"

definition from_fabric_yarn :: "FabricYarn \<Rightarrow> string \<Rightarrow> datetime \<Rightarrow> CombinedYarn" where
  "from_fabric_yarn fabric_yarn version_id version_release_time =
     \<lparr>cy_version_id = version_id,
      cy_version_file_id = fy_version_file_id fabric_yarn,
      cy_version_release_time = version_release_time,
      cy_separator = fy_separator fabric_yarn,
      cy_build = fy_build fabric_yarn,
      cy_fabric_name = fy_fabric_name fabric_yarn\<rparr>"

definition mappingio_args :: "CombinedJarDesc \<Rightarrow> CombinedYarn \<Rightarrow> string list" where
  "mappingio_args self yarn =
     [''yarnfulldescs'', jm_path self, cy_path yarn, out_path self, ''JSON'']"

text \<open>\<^verbatim>\<open>CombinedJarDesc.mappingio\<close>: one run of the merge tool; a non-zero exit code raises.\<close>

definition mappingio :: "env \<Rightarrow> CombinedJarDesc \<Rightarrow> CombinedYarn \<Rightarrow> world \<Rightarrow> (error + unit) \<times> world" where
  "mappingio env self yarn w =
     (let w1 = log_event (Mappingio (mappingio_args self yarn)) w
      in if java env (mappingio_args self yarn) \<noteq> 0 then (Inl MappingIOError, w1)
         else (Inr (), w1))"

text \<open>
  \<^verbatim>\<open>CombinedYarn.download\<close>, in two parts: the full download of lines 119 to 124, and
  the cache check before it. \<^verbatim>\<open>with_suffix(".tiny.gz")\<close> turns the final \<^verbatim>\<open>.tiny\<close> of the
  path into \<^verbatim>\<open>.tiny.gz\<close>.
\<close>

definition cache_path :: "CombinedYarn \<Rightarrow> string" where
  "cache_path self = cy_path self @ ''.gz''"

definition cy_tiny_gz_url :: "CombinedYarn \<Rightarrow> string" where
  "cy_tiny_gz_url self = tiny_gz_url (cy_fabric_name self)"

definition download_full :: "env \<Rightarrow> CombinedYarn \<Rightarrow> world \<Rightarrow> (error + unit) \<times> world" where
  "download_full env self w =
     (let w1 = log_event (Get (cy_tiny_gz_url self)) w
      in case http env (cy_tiny_gz_url self) of
           None \<Rightarrow> (Inl (HTTPError (cy_tiny_gz_url self)), w1)
         | Some content \<Rightarrow>
             (let w2 = log_event (WriteBytes (cache_path self) content)
                         (write_file (cache_path self) content w1)
              in case gunzip_utf8 env content of
                   None \<Rightarrow> (Inl GzipError, w2)
                 | Some text \<Rightarrow>
                     (Inr (), log_event (WriteText (cy_path self) text)
                                (write_file (cy_path self) text w2))))"

definition download :: "env \<Rightarrow> CombinedYarn \<Rightarrow> world \<Rightarrow> (error + unit) \<times> world" where
  "download env self w =
     (case (files w (cache_path self), files w (cy_path self)) of
        (Some cached, Some _) \<Rightarrow>
          (let w1 = log_event (Get (cy_tiny_gz_url self @ ''.sha1'')) w
           in case http env (cy_tiny_gz_url self @ ''.sha1'') of
                None \<Rightarrow> (Inl (HTTPError (cy_tiny_gz_url self @ ''.sha1'')), w1)
              | Some online_sha1 \<Rightarrow>
                  if online_sha1 = sha1_hexdigest env cached then (Inr (), w1)
                  else download_full env self w1)
      | _ \<Rightarrow> download_full env self w)"

text \<open>The events a call has added to the trace.\<close>

definition new_events :: "world \<Rightarrow> world \<Rightarrow> event list" where
  "new_events w w' = drop (length (trace w)) (trace w')"

text \<open>
  The two cases of the cache check in the words of the specification: a hit when both
  local files exist and the remote sidecar hash equals the hash of the local compressed
  file, a miss when a local file is missing or the two hashes differ.
\<close>

definition cache_hit :: "env \<Rightarrow> CombinedYarn \<Rightarrow> world \<Rightarrow> bool" where
  "cache_hit env self w =
     (case (files w (cache_path self), files w (cy_path self)) of
        (Some cached, Some _) \<Rightarrow>
          http env (cy_tiny_gz_url self @ ''.sha1'') = Some (sha1_hexdigest env cached)
      | _ \<Rightarrow> False)"

definition cache_miss :: "env \<Rightarrow> CombinedYarn \<Rightarrow> world \<Rightarrow> bool" where
  "cache_miss env self w =
     (case (files w (cache_path self), files w (cy_path self)) of
        (Some cached, Some _) \<Rightarrow>
          (case http env (cy_tiny_gz_url self @ ''.sha1'') of
             None \<Rightarrow> False
           | Some online_sha1 \<Rightarrow> online_sha1 \<noteq> sha1_hexdigest env cached)
      | _ \<Rightarrow> True)"

section \<open>combined.py: one version\<close>

record CombinedCombined =
  cc_version_id :: string
  cc_version_file_id :: string
  cc_version_release_time :: datetime
  cc_yarn :: CombinedYarn
  cc_jars :: "(string, CombinedJarDesc) dict"

text \<open>
  The loop over the description entries in \<^verbatim>\<open>CombinedCombined.update\<close>. The state is the
  jar map and the dirty flag; \<open>yarn_dirty\<close> and the current yarn do not change in the loop.
\<close>

fun update_jars ::
  "env \<Rightarrow> bool \<Rightarrow> CombinedYarn \<Rightarrow> JarDescsMapping list \<Rightarrow>
   (string, CombinedJarDesc) dict \<times> bool \<Rightarrow> world \<Rightarrow>
   (error + (string, CombinedJarDesc) dict \<times> bool) \<times> world" where
  "update_jars env yarn_dirty yarn [] s w = (Inr s, w)"
| "update_jars env yarn_dirty yarn (mapping # rest) s w =
     (let new_jar = from_jar_descs_mapping mapping;
          jar_dirty = (case map_of (fst s) (jm_jar_key mapping) of
                         None \<Rightarrow> True
                       | Some stored \<Rightarrow> stored \<noteq> new_jar);
          s1 = (if jar_dirty then (AList.update (jm_jar_key mapping) new_jar (fst s), True) else s)
      in if yarn_dirty \<or> jar_dirty
         then (case mappingio env new_jar yarn w of
                 (Inl e, w1) \<Rightarrow> (Inl e, w1)
               | (Inr u, w1) \<Rightarrow> update_jars env yarn_dirty yarn rest s1 w1)
         else update_jars env yarn_dirty yarn rest s1 w)"

text \<open>Lines 149 to 166 of \<^verbatim>\<open>CombinedCombined.update\<close>: the loop, the sorting and the result.\<close>

definition update_jars_and_sort ::
  "env \<Rightarrow> bool \<Rightarrow> CombinedCombined \<Rightarrow> JarDescsMapping list \<Rightarrow> world \<Rightarrow>
   (error + CombinedCombined \<times> bool) \<times> world" where
  "update_jars_and_sort env yarn_dirty self jar_descs_mappings w =
     (case update_jars env yarn_dirty (cc_yarn self) jar_descs_mappings
             (cc_jars self, yarn_dirty) w of
        (Inl e, w1) \<Rightarrow> (Inl e, w1)
      | (Inr (jars, dirty), w1) \<Rightarrow>
          (Inr (self\<lparr>cc_jars := (if dirty then sort_dict jars else jars)\<rparr>, dirty), w1))"

definition CombinedCombined_update ::
  "env \<Rightarrow> CombinedCombined \<Rightarrow> FabricYarn \<Rightarrow> JarDescsMapping list \<Rightarrow> world \<Rightarrow>
   (error + CombinedCombined \<times> bool) \<times> world" where
  "CombinedCombined_update env self fabric_yarn jar_descs_mappings w =
     (let new_yarn = from_fabric_yarn fabric_yarn (cc_version_id self)
                       (cc_version_release_time self)
      in if cc_yarn self \<noteq> new_yarn
         then (case download env new_yarn w of
                 (Inl e, w1) \<Rightarrow> (Inl e, w1)
               | (Inr u, w1) \<Rightarrow>
                   update_jars_and_sort env True (self\<lparr>cc_yarn := new_yarn\<rparr>)
                     jar_descs_mappings w1)
         else update_jars_and_sort env False self jar_descs_mappings w)"

text \<open>
  The entries the loop reaches when the yarn is dirty and every entry is merged: the
  current entries in order, up to and including the first whose merge exits non-zero,
  which raises and ends the pass.
\<close>

fun until_first_failure :: "env \<Rightarrow> CombinedYarn \<Rightarrow> JarDescsMapping list \<Rightarrow> JarDescsMapping list" where
  "until_first_failure env yarn [] = []"
| "until_first_failure env yarn (m # ms) =
     (if java env (mappingio_args (from_jar_descs_mapping m) yarn) \<noteq> 0 then [m]
      else m # until_first_failure env yarn ms)"

text \<open>\<^verbatim>\<open>CombinedCombined.mappingio\<close>: the merge tool on every stored jar, in the map's order.\<close>

fun mappingio_all :: "env \<Rightarrow> CombinedJarDesc list \<Rightarrow> CombinedYarn \<Rightarrow> world \<Rightarrow> (error + unit) \<times> world" where
  "mappingio_all env [] yarn w = (Inr (), w)"
| "mappingio_all env (jar # rest) yarn w =
     (case mappingio env jar yarn w of
        (Inl e, w1) \<Rightarrow> (Inl e, w1)
      | (Inr u, w1) \<Rightarrow> mappingio_all env rest yarn w1)"

definition CombinedCombined_mappingio :: "env \<Rightarrow> CombinedCombined \<Rightarrow> world \<Rightarrow> (error + unit) \<times> world" where
  "CombinedCombined_mappingio env self w = mappingio_all env (map snd (cc_jars self)) (cc_yarn self) w"

section \<open>combined.py: the reconciler\<close>

record Combined =
  c_timestamp :: datetime
  c_jar_descs_timestamp :: datetime
  c_fabric_timestamp :: datetime
  combined :: "(string, CombinedCombined) dict"

definition Combined_empty :: Combined where
  "Combined_empty =
     \<lparr>c_timestamp = 0, c_jar_descs_timestamp = 0, c_fabric_timestamp = 0, combined = []\<rparr>"

text \<open>The dictionary comprehension of lines 238 to 241.\<close>

definition combined_jars_of :: "JarDescsMapping list \<Rightarrow> (string, CombinedJarDesc) dict" where
  "combined_jars_of js = foldl (\<lambda>d j. AList.update (jm_jar_key j) (from_jar_descs_mapping j) d) [] js"

text \<open>
  The body of the loop of \<^verbatim>\<open>Combined.update\<close> for one item of \<^verbatim>\<open>fabric.yarn\<close>, on the
  version map and the dirty flag.
\<close>

definition Combined_update_version ::
  "env \<Rightarrow> JarDescs \<Rightarrow> string \<times> FabricYarn \<Rightarrow> (string, CombinedCombined) dict \<times> bool \<Rightarrow>
   world \<Rightarrow> (error + (string, CombinedCombined) dict \<times> bool) \<times> world" where
  "Combined_update_version env jar_descs item s w =
     (case get_version_id jar_descs (fst item) of
        Inl e \<Rightarrow> (Inl e, w)
      | Inr version_id \<Rightarrow>
     (case get_version_release_time jar_descs version_id of
        Inl e \<Rightarrow> (Inl e, w)
      | Inr version_release_time \<Rightarrow>
     (case map_of (fst s) version_id of
        None \<Rightarrow>
          (let combined_yarn = from_fabric_yarn (snd item) version_id version_release_time
           in case download env combined_yarn w of
                (Inl e, w1) \<Rightarrow> (Inl e, w1)
              | (Inr u, w1) \<Rightarrow>
             (case get_jars jar_descs version_id of
                Inl e \<Rightarrow> (Inl e, w1)
              | Inr js \<Rightarrow>
                 (let new = \<lparr>cc_version_id = version_id,
                             cc_version_file_id = fst item,
                             cc_version_release_time = version_release_time,
                             cc_yarn = combined_yarn,
                             cc_jars = combined_jars_of js\<rparr>
                  in case CombinedCombined_mappingio env new w1 of
                       (Inl e, w2) \<Rightarrow> (Inl e, w2)
                     | (Inr u, w2) \<Rightarrow> (Inr (AList.update version_id new (fst s), True), w2))))
      | Some existing \<Rightarrow>
          (case get_jars jar_descs version_id of
             Inl e \<Rightarrow> (Inl e, w)
           | Inr js \<Rightarrow>
              (case CombinedCombined_update env existing (snd item) js w of
                 (Inl e, w1) \<Rightarrow> (Inl e, w1)
               | (Inr (updated, combined_dirty), w1) \<Rightarrow>
                   (Inr (AList.update version_id updated (fst s),
                         (if combined_dirty then True else snd s)), w1))))))"

fun Combined_update_loop ::
  "env \<Rightarrow> JarDescs \<Rightarrow> (string \<times> FabricYarn) list \<Rightarrow> (string, CombinedCombined) dict \<times> bool \<Rightarrow>
   world \<Rightarrow> (error + (string, CombinedCombined) dict \<times> bool) \<times> world" where
  "Combined_update_loop env jar_descs [] s w = (Inr s, w)"
| "Combined_update_loop env jar_descs (item # rest) s w =
     (case Combined_update_version env jar_descs item s w of
        (Inl e, w1) \<Rightarrow> (Inl e, w1)
      | (Inr s1, w1) \<Rightarrow> Combined_update_loop env jar_descs rest s1 w1)"

text \<open>
  \<^verbatim>\<open>Combined.update\<close>. The registry and the description source are the documents the
  method loads at its start.
\<close>

definition Combined_update ::
  "env \<Rightarrow> Fabric \<Rightarrow> JarDescs \<Rightarrow> Combined \<Rightarrow> world \<Rightarrow> (error + Combined \<times> bool) \<times> world" where
  "Combined_update env fabric jar_descs self w =
     (if c_fabric_timestamp self = f_timestamp fabric
         \<and> c_jar_descs_timestamp self = jd_timestamp jar_descs
      then (Inr (self, False), w)
      else
        (case Combined_update_loop env jar_descs (f_yarn fabric) (combined self, False) w of
           (Inl e, w1) \<Rightarrow> (Inl e, w1)
         | (Inr (comb, dirty), w1) \<Rightarrow>
             (case (if dirty
                    then sort_dict_key
                           (\<lambda>i. index_of (sorted_version_file_ids fabric)
                                  (cc_version_file_id (snd i))) comb
                    else Inr comb) of
                Inl e \<Rightarrow> (Inl e, w1)
              | Inr comb1 \<Rightarrow>
                  (Inr (self\<lparr>combined := comb1,
                             c_fabric_timestamp := f_timestamp fabric,
                             c_jar_descs_timestamp := jd_timestamp jar_descs\<rparr>, dirty), w1))))"

definition Combined_save :: "datetime \<Rightarrow> Combined \<Rightarrow> Combined" where
  "Combined_save now self = self\<lparr>c_timestamp := now\<rparr>"

text \<open>
  The script of combined.py: load the combined document, update, save when dirty. The
  result carries the combined document as it is on disk afterwards.
\<close>

definition Combined_main ::
  "env \<Rightarrow> Fabric \<Rightarrow> JarDescs \<Rightarrow> datetime \<Rightarrow> Combined \<Rightarrow> world \<Rightarrow>
   (error + bool) \<times> Combined \<times> world" where
  "Combined_main env fabric jar_descs now doc w =
     (case Combined_update env fabric jar_descs doc w of
        (Inl e, w1) \<Rightarrow> (Inl e, doc, w1)
      | (Inr (c, dirty), w1) \<Rightarrow>
          if dirty then (Inr True, Combined_save now c, w1) else (Inr False, doc, w1))"

section \<open>index.py: the index projector\<close>

definition BASE_URL :: string where
  "BASE_URL = ''https://jackassmc.github.io/fabric-yarn-merged-descs''"

record IndexJar =
  ij_version_id :: string
  ij_version_file_id :: string
  ij_version_release_time :: datetime
  ij_yarn_build :: int
  ij_jar_key :: string
  ij_path :: string
  ij_url :: string

definition from_combined_jar :: "CombinedJarDesc \<Rightarrow> int \<Rightarrow> IndexJar" where
  "from_combined_jar combined_jar yarn_build =
     (let path = out_path combined_jar
      in \<lparr>ij_version_id = jm_version_id combined_jar,
          ij_version_file_id = jm_version_file_id combined_jar,
          ij_version_release_time = jm_version_release_time combined_jar,
          ij_yarn_build = yarn_build,
          ij_jar_key = jm_jar_key combined_jar,
          ij_path = path,
          ij_url = BASE_URL @ ''/'' @ path\<rparr>)"

record IndexVersion =
  iv_version_id :: string
  iv_version_file_id :: string
  iv_version_release_time :: datetime
  iv_yarn_build :: int
  iv_jars :: "(string, IndexJar) dict"

definition from_combined :: "CombinedCombined \<Rightarrow> IndexVersion" where
  "from_combined c =
     \<lparr>iv_version_id = cc_version_id c,
      iv_version_file_id = cc_version_file_id c,
      iv_version_release_time = cc_version_release_time c,
      iv_yarn_build = cy_build (cc_yarn c),
      iv_jars = foldl (\<lambda>jars item.
                         AList.update (fst item)
                           (from_combined_jar (snd item) (cy_build (cc_yarn c))) jars)
                  [] (cc_jars c)\<rparr>"

record Index =
  i_timestamp :: datetime
  versions :: "(string, IndexVersion) dict"


text \<open>\<^verbatim>\<open>Index.update\<close>, on the combined document it loads.\<close>

definition Index_update :: "Combined \<Rightarrow> Index \<Rightarrow> Index \<times> bool" where
  "Index_update combined_root self =
     (if i_timestamp self = c_timestamp combined_root then (self, False)
      else (self\<lparr>i_timestamp := c_timestamp combined_root,
                 versions := foldl (\<lambda>vs item.
                                      if fst item \<notin> fst ` set vs
                                      then AList.update (fst item) (from_combined (snd item)) vs
                                      else vs)
                               [] (combined combined_root)\<rparr>, True))"

section \<open>update.py: one update run\<close>







section \<open>Example data\<close>

definition ex_entry :: "string \<Rightarrow> int \<Rightarrow> FabricYarn" where
  "ex_entry v b =
     \<lparr>fy_version_file_id = v, fy_separator = ''+build.'', fy_build = b,
      fy_fabric_name = v @ ''+build''\<rparr>"

definition ex_json :: "string \<Rightarrow> int \<Rightarrow> json_mapping" where
  "ex_json v b =
     \<lparr>j_gameVersion = Some v, j_separator = Some ''+build.'', j_build = Some b,
      j_version = Some (v @ ''+build'')\<rparr>"

definition ex_fabric :: Fabric where
  "ex_fabric =
     \<lparr>f_timestamp = 1, f_yarn = [(''A'', ex_entry ''A'' 5)], sorted_version_file_ids = [''A'']\<rparr>"

definition ex_feed :: "json_mapping list" where
  "ex_feed = [ex_json ''B'' 1, ex_json ''A'' 4, ex_json ''A'' 7, ex_json ''A'' 6]"

definition ex_yarn :: CombinedYarn where
  "ex_yarn = from_fabric_yarn (ex_entry ''A'' 5) ''A'' 3"

text \<open>A remote that serves every artifact as \<open>GZ\<close>, with hash \<open>h1\<close>; the merge tool succeeds.\<close>

definition ex_env :: env where
  "ex_env =
     \<lparr>http = (\<lambda>url. if url = cy_tiny_gz_url ex_yarn @ ''.sha1'' then Some ''h1'' else Some ''GZ''),
      sha1_hexdigest = (\<lambda>c. if c = ''GZ'' then ''h1'' else ''h0''),
      gunzip_utf8 = (\<lambda>c. if c = ''GZ'' then Some ''tiny'' else None),
      java = (\<lambda>args. 0)\<rparr>"

definition ex_world_empty :: world where
  "ex_world_empty = \<lparr>files = (\<lambda>p. None), trace = []\<rparr>"

definition ex_world_cached :: world where
  "ex_world_cached =
     \<lparr>files = (\<lambda>p. if p = cache_path ex_yarn then Some ''GZ''
                   else if p = cy_path ex_yarn then Some ''tiny'' else None),
      trace = []\<rparr>"

definition ex_jar :: "string \<Rightarrow> string \<Rightarrow> JarDescsMapping" where
  "ex_jar k h =
     \<lparr>jm_version_id = ''A'', jm_version_file_id = ''A'', jm_version_release_time = 3,
      jm_jar_key = k, jm_jar_sha1_meta = h\<rparr>"

text \<open>Version \<open>A\<close> as stored: yarn build 5, jars \<open>client\<close> and \<open>server\<close>.\<close>

definition ex_cc :: CombinedCombined where
  "ex_cc =
     \<lparr>cc_version_id = ''A'', cc_version_file_id = ''A'', cc_version_release_time = 3,
      cc_yarn = ex_yarn,
      cc_jars = [(''client'', ex_jar ''client'' ''c1''), (''server'', ex_jar ''server'' ''s1'')]\<rparr>"

definition ex_jar_B :: JarDescsMapping where
  "ex_jar_B =
     \<lparr>jm_version_id = ''B'', jm_version_file_id = ''B'', jm_version_release_time = 4,
      jm_jar_key = ''client'', jm_jar_sha1_meta = ''b1''\<rparr>"

text \<open>A registry that discovered \<open>A\<close> before \<open>B\<close>; a description source that lists \<open>B\<close> first.\<close>

definition ex_registry :: Fabric where
  "ex_registry =
     \<lparr>f_timestamp = 2, f_yarn = [(''A'', ex_entry ''A'' 5), (''B'', ex_entry ''B'' 1)],
      sorted_version_file_ids = [''A'', ''B'']\<rparr>"

definition ex_jar_descs :: JarDescs where
  "ex_jar_descs =
     \<lparr>jd_timestamp = 7,
      jd_mappings =
        [(''B'', [(''client'', ex_jar_B)]),
         (''A'', [(''client'', ex_jar ''client'' ''c1''), (''server'', ex_jar ''server'' ''s1'')])]\<rparr>"

definition ex_cc_B :: CombinedCombined where
  "ex_cc_B =
     \<lparr>cc_version_id = ''B'', cc_version_file_id = ''B'', cc_version_release_time = 4,
      cc_yarn = from_fabric_yarn (ex_entry ''B'' 1) ''B'' 4,
      cc_jars = [(''client'', ex_jar_B)]\<rparr>"

text \<open>The combined document before the run knows \<open>B\<close> only; after it, \<open>A\<close> and \<open>B\<close>.\<close>

definition ex_combined :: Combined where
  "ex_combined =
     \<lparr>c_timestamp = 1, c_jar_descs_timestamp = 6, c_fabric_timestamp = 1,
      combined = [(''B'', ex_cc_B)]\<rparr>"

definition ex_combined_after :: Combined where
  "ex_combined_after =
     \<lparr>c_timestamp = 1, c_jar_descs_timestamp = 7, c_fabric_timestamp = 2,
      combined = [(''A'', ex_cc), (''B'', ex_cc_B)]\<rparr>"



text \<open>A stale index document with an entry no version corresponds to.\<close>

definition ex_index :: Index where
  "ex_index = \<lparr>i_timestamp = 0, versions = [(''Z'', from_combined ex_cc_B)]\<rparr>"

text \<open>The same outside with a merge tool that always fails.\<close>

definition ex_env_tool_fails :: env where
  "ex_env_tool_fails = ex_env\<lparr>java := (\<lambda>args. 1)\<rparr>"

section \<open>Facts about dictionaries and sorting\<close>

lemma map_of_sort_key:
  "distinct (map fst d) \<Longrightarrow> map_of (sort_key f d) = map_of d"
  by (rule map_of_inject_set [THEN iffD2]) (simp_all add: distinct_map)

lemma sort_dict_key_map_of:
  "sort_dict_key key d = Inr d' \<Longrightarrow> distinct (map fst d) \<Longrightarrow> map_of d' = map_of d"
  by (auto simp: sort_dict_key_def map_of_sort_key split: if_splits)

section \<open>The registry refresh\<close>

lemma Fabric_update_entry_lookup:
  "map_of (f_yarn (fst (Fabric_update_entry fy s))) X =
     (if fy_version_file_id fy = X then spec_refresh_rule (map_of (f_yarn (fst s)) X) fy
      else map_of (f_yarn (fst s)) X)"
  by (auto simp: Fabric_update_entry_def Let_def spec_refresh_rule_def update_conv'
           split: option.splits)

lemma Fabric_update_entry_distinct:
  "distinct (map fst (f_yarn (fst s))) \<Longrightarrow>
   distinct (map fst (f_yarn (fst (Fabric_update_entry fy s))))"
  by (auto simp: Fabric_update_entry_def Let_def distinct_update split: option.splits)

lemma Fabric_update_loop_lookup:
  "Fabric_update_loop ms s = Inr s' \<Longrightarrow> map from_json ms = map Inr fs \<Longrightarrow>
   map_of (f_yarn (fst s')) X =
     foldl spec_refresh_rule (map_of (f_yarn (fst s)) X)
       (filter (\<lambda>f. fy_version_file_id f = X) fs)"
proof (induction ms arbitrary: s fs)
  case Nil
  then show ?case by simp
next
  case (Cons m ms)
  from Cons.prems(2) obtain f fs' where fs: "fs = f # fs'" "from_json m = Inr f"
    "map from_json ms = map Inr fs'"
    by (cases fs) auto
  from Cons.prems(1) fs have "Fabric_update_loop ms (Fabric_update_entry f s) = Inr s'"
    by simp
  from Cons.IH [OF this fs(3)] show ?case
    by (simp add: fs Fabric_update_entry_lookup)
qed

lemma Fabric_update_loop_distinct:
  "Fabric_update_loop ms s = Inr s' \<Longrightarrow> distinct (map fst (f_yarn (fst s))) \<Longrightarrow>
   distinct (map fst (f_yarn (fst s')))"
proof (induction ms arbitrary: s)
  case Nil
  then show ?case by simp
next
  case (Cons m ms)
  from Cons.prems(1) obtain f where f: "from_json m = Inr f"
    "Fabric_update_loop ms (Fabric_update_entry f s) = Inr s'"
    by (auto split: sum.splits)
  show ?case
    by (rule Cons.IH [OF f(2)]) (rule Fabric_update_entry_distinct [OF Cons.prems(2)])
qed

text \<open>
  C4. A successful refresh treats every identifier by the replacement rule, one fetched
  entry after the other: an identifier not yet present takes the fetched entry, a present
  one is replaced exactly when the fetched entry differs and its build is strictly
  greater, and is kept otherwise. The final re-sorting keeps every stored entry.
\<close>

theorem Fabric_update_monotonic_build:
  assumes "Fabric_update (Some ms) self = Inr (self', dirty)"
    and "distinct (map fst (f_yarn self))"
    and "map from_json ms = map Inr fs"
  shows "map_of (f_yarn self') X =
           foldl spec_refresh_rule (map_of (f_yarn self) X)
             (filter (\<lambda>f. fy_version_file_id f = X) fs)"
proof -
  from assms(1) obtain self1 where
    loop: "Fabric_update_loop ms (self, False) = Inr (self1, dirty)" and
    fin: "self' = self1 \<or>
          (\<exists>y. sort_dict_key (\<lambda>i. index_of (sorted_version_file_ids self1) (fst i)) (f_yarn self1)
                 = Inr y \<and> self' = self1\<lparr>f_yarn := y\<rparr>)"
    by (auto simp: Fabric_update_def split: sum.splits if_splits)
  have d: "distinct (map fst (f_yarn self1))"
    using Fabric_update_loop_distinct [OF loop] assms(2) by simp
  have "map_of (f_yarn self') = map_of (f_yarn self1)"
    using fin d by (auto dest: sort_dict_key_map_of)
  then show ?thesis
    using Fabric_update_loop_lookup [OF loop assms(3), of X] by simp
qed

theorem Fabric_update_monotonic_build_witness:
  "Fabric_update (Some ex_feed) ex_fabric =
     Inr (\<lparr>f_timestamp = 1, f_yarn = [(''A'', ex_entry ''A'' 7), (''B'', ex_entry ''B'' 1)],
           sorted_version_file_ids = [''A'', ''B'']\<rparr>, True)
   \<and> distinct (map fst (f_yarn ex_fabric))
   \<and> map from_json ex_feed
       = map Inr [ex_entry ''B'' 1, ex_entry ''A'' 4, ex_entry ''A'' 7, ex_entry ''A'' 6]
   \<and> map_of [(''A'', ex_entry ''A'' 7), (''B'', ex_entry ''B'' 1)] ''A''
       = foldl spec_refresh_rule (Some (ex_entry ''A'' 5))
           [ex_entry ''A'' 4, ex_entry ''A'' 7, ex_entry ''A'' 6]"
proof -
  have h1: "Fabric_update (Some ex_feed) ex_fabric =
     Inr (\<lparr>f_timestamp = 1, f_yarn = [(''A'', ex_entry ''A'' 7), (''B'', ex_entry ''B'' 1)],
           sorted_version_file_ids = [''A'', ''B'']\<rparr>, True)"
    by code_simp
  have h2: "distinct (map fst (f_yarn ex_fabric))"
    by code_simp
  have h3: "map from_json ex_feed
       = map Inr [ex_entry ''B'' 1, ex_entry ''A'' 4, ex_entry ''A'' 7, ex_entry ''A'' 6]"
    by code_simp
  have f: "filter (\<lambda>f. fy_version_file_id f = ''A'')
             [ex_entry ''B'' 1, ex_entry ''A'' 4, ex_entry ''A'' 7, ex_entry ''A'' 6]
           = [ex_entry ''A'' 4, ex_entry ''A'' 7, ex_entry ''A'' 6]"
    by (simp add: ex_entry_def)
  have g: "map_of (f_yarn ex_fabric) ''A'' = Some (ex_entry ''A'' 5)"
    by (simp add: ex_fabric_def)
  from Fabric_update_monotonic_build [OF h1 h2 h3, of "''A''"] h1 h2 h3 show ?thesis
    unfolding f g by simp
qed

section \<open>The artifact fetch\<close>

lemma new_events_log_event: "new_events w (log_event e w) = [e]"
  by (simp add: new_events_def log_event_def)

lemma download_hit:
  "cache_hit env self w \<Longrightarrow>
   download env self w = (Inr (), log_event (Get (cy_tiny_gz_url self @ ''.sha1'')) w)"
  by (auto simp: cache_hit_def download_def Let_def split: option.splits)

lemma download_full_count:
  "filter (\<lambda>e. e = Get (cy_tiny_gz_url self)) (new_events w (snd (download_full env self w)))
     = [Get (cy_tiny_gz_url self)]"
  by (auto simp: download_full_def Let_def new_events_def log_event_def write_file_def
           split: option.splits)

lemma download_full_ok:
  "http env (cy_tiny_gz_url self) = Some content \<Longrightarrow> gunzip_utf8 env content = Some text \<Longrightarrow>
   download_full env self w =
     (Inr (), w\<lparr>files := (files w)(cache_path self \<mapsto> content, cy_path self \<mapsto> text),
               trace := trace w @ [Get (cy_tiny_gz_url self), WriteBytes (cache_path self) content,
                                   WriteText (cy_path self) text]\<rparr>)"
  by (simp add: download_full_def Let_def log_event_def write_file_def)

lemma download_miss_cases:
  "cache_miss env self w \<Longrightarrow>
   download env self w = download_full env self w \<or>
   download env self w = download_full env self (log_event (Get (cy_tiny_gz_url self @ ''.sha1'')) w)"
  by (auto simp: cache_miss_def download_def Let_def split: option.splits)

lemma new_events_after_log:
  "new_events w (snd (download_full env self (log_event e w)))
     = e # new_events (log_event e w) (snd (download_full env self (log_event e w)))"
  by (auto simp: download_full_def Let_def new_events_def log_event_def write_file_def
           split: option.splits)

lemma download_miss_count:
  assumes "cache_miss env self w"
  shows "filter (\<lambda>e. e = Get (cy_tiny_gz_url self)) (new_events w (snd (download env self w)))
           = [Get (cy_tiny_gz_url self)]"
proof -
  let ?w1 = "log_event (Get (cy_tiny_gz_url self @ ''.sha1'')) w"
  from download_miss_cases [OF assms] show ?thesis
  proof
    assume "download env self w = download_full env self w"
    then show ?thesis by (simp add: download_full_count)
  next
    assume a: "download env self w = download_full env self ?w1"
    show ?thesis
      using download_full_count [of self ?w1 env] by (simp add: a new_events_after_log)
  qed
qed

lemma download_miss_ok:
  assumes "cache_miss env self w"
    and "http env (cy_tiny_gz_url self) = Some content"
    and "gunzip_utf8 env content = Some text"
  shows "fst (download env self w) = Inr ()
    \<and> files (snd (download env self w))
        = (files w)(cache_path self \<mapsto> content, cy_path self \<mapsto> text)
    \<and> (\<exists>pre. set pre \<subseteq> {Get (cy_tiny_gz_url self @ ''.sha1'')}
          \<and> new_events w (snd (download env self w))
              = pre @ [Get (cy_tiny_gz_url self), WriteBytes (cache_path self) content,
                       WriteText (cy_path self) text])"
proof -
  let ?w1 = "log_event (Get (cy_tiny_gz_url self @ ''.sha1'')) w"
  from download_miss_cases [OF assms(1)] show ?thesis
  proof
    assume "download env self w = download_full env self w"
    then show ?thesis
      by (simp add: download_full_ok [OF assms(2,3)] new_events_def)
  next
    assume "download env self w = download_full env self ?w1"
    then have "fst (download env self w) = Inr ()"
      and "files (snd (download env self w))
        = (files w)(cache_path self \<mapsto> content, cy_path self \<mapsto> text)"
      and "new_events w (snd (download env self w))
              = [Get (cy_tiny_gz_url self @ ''.sha1'')]
                @ [Get (cy_tiny_gz_url self), WriteBytes (cache_path self) content,
                       WriteText (cy_path self) text]"
      by (simp_all add: download_full_ok [OF assms(2,3)] new_events_def log_event_def)
    then show ?thesis
      by (metis empty_subsetI insert_subset list.simps(15) set_empty subset_refl)
  qed
qed

text \<open>
  C8. On a cache hit (both local files exist and the sidecar hash equals the hash of the
  local compressed file) the fetch only requests the sidecar: no full download, no file
  changed. On a miss (a local file missing, or the hashes differ) it requests the full
  payload exactly once; when that request and the decompression succeed it writes the
  payload verbatim to the compressed file and then the decompressed text to the artifact.
\<close>

theorem download_cache_correct:
  "(cache_hit env self w \<longrightarrow>
      fst (download env self w) = Inr ()
      \<and> new_events w (snd (download env self w)) = [Get (cy_tiny_gz_url self @ ''.sha1'')]
      \<and> files (snd (download env self w)) = files w)
   \<and> (cache_miss env self w \<longrightarrow>
      filter (\<lambda>e. e = Get (cy_tiny_gz_url self)) (new_events w (snd (download env self w)))
        = [Get (cy_tiny_gz_url self)]
      \<and> (\<forall>content text.
            http env (cy_tiny_gz_url self) = Some content \<longrightarrow>
            gunzip_utf8 env content = Some text \<longrightarrow>
              fst (download env self w) = Inr ()
              \<and> files (snd (download env self w))
                  = (files w)(cache_path self \<mapsto> content, cy_path self \<mapsto> text)
              \<and> (\<exists>pre. set pre \<subseteq> {Get (cy_tiny_gz_url self @ ''.sha1'')}
                    \<and> new_events w (snd (download env self w))
                        = pre @ [Get (cy_tiny_gz_url self),
                                 WriteBytes (cache_path self) content,
                                 WriteText (cy_path self) text])))"
proof (intro conjI impI allI)
  assume "cache_hit env self w"
  note h = download_hit [OF this]
  show "fst (download env self w) = Inr ()" by (simp add: h)
  show "new_events w (snd (download env self w)) = [Get (cy_tiny_gz_url self @ ''.sha1'')]"
    by (simp add: h new_events_log_event)
  show "files (snd (download env self w)) = files w" by (simp add: h log_event_def)
next
  assume "cache_miss env self w"
  then show "filter (\<lambda>e. e = Get (cy_tiny_gz_url self)) (new_events w (snd (download env self w)))
        = [Get (cy_tiny_gz_url self)]"
    by (rule download_miss_count)
next
  fix content tiny
  assume m: "cache_miss env self w" "http env (cy_tiny_gz_url self) = Some content"
    "gunzip_utf8 env content = Some tiny"
  note r = download_miss_ok [OF m]
  show "fst (download env self w) = Inr ()" using r by simp
  show "files (snd (download env self w))
          = (files w)(cache_path self \<mapsto> content, cy_path self \<mapsto> tiny)"
    using r by simp
  show "\<exists>pre. set pre \<subseteq> {Get (cy_tiny_gz_url self @ ''.sha1'')}
          \<and> new_events w (snd (download env self w))
              = pre @ [Get (cy_tiny_gz_url self), WriteBytes (cache_path self) content,
                       WriteText (cy_path self) tiny]"
    using r by simp
qed

theorem download_cache_correct_witness:
  "cache_hit ex_env ex_yarn ex_world_cached
   \<and> new_events ex_world_cached (snd (download ex_env ex_yarn ex_world_cached))
       = [Get (cy_tiny_gz_url ex_yarn @ ''.sha1'')]
   \<and> cache_miss ex_env ex_yarn ex_world_empty
   \<and> http ex_env (cy_tiny_gz_url ex_yarn) = Some ''GZ''
   \<and> gunzip_utf8 ex_env ''GZ'' = Some ''tiny''
   \<and> filter (\<lambda>e. e = Get (cy_tiny_gz_url ex_yarn))
        (new_events ex_world_empty (snd (download ex_env ex_yarn ex_world_empty)))
       = [Get (cy_tiny_gz_url ex_yarn)]
   \<and> files (snd (download ex_env ex_yarn ex_world_empty))
       = (files ex_world_empty)(cache_path ex_yarn \<mapsto> ''GZ'', cy_path ex_yarn \<mapsto> ''tiny'')"
proof -
  have hit: "cache_hit ex_env ex_yarn ex_world_cached"
    by code_simp
  have miss: "cache_miss ex_env ex_yarn ex_world_empty"
    by code_simp
  have h: "http ex_env (cy_tiny_gz_url ex_yarn) = Some ''GZ''"
    by code_simp
  have g: "gunzip_utf8 ex_env ''GZ'' = Some ''tiny''"
    by code_simp
  from download_cache_correct [of ex_env ex_yarn ex_world_cached]
    download_cache_correct [of ex_env ex_yarn ex_world_empty] hit miss h g
  show ?thesis by blast
qed

section \<open>Reconciling one existing version\<close>

lemma update_jars_append:
  "update_jars env yd yarn (xs @ ys) s w =
     (case update_jars env yd yarn xs s w of
        (Inl e, w1) \<Rightarrow> (Inl e, w1)
      | (Inr s1, w1) \<Rightarrow> update_jars env yd yarn ys s1 w1)"
  by (induction xs arbitrary: s w) (auto simp: Let_def split: prod.splits sum.splits)

lemma update_jars_clean:
  "\<forall>m\<in>set ms. map_of (fst s) (jm_jar_key m) = Some (from_jar_descs_mapping m) \<Longrightarrow>
   update_jars env False yarn ms s w = (Inr s, w)"
  by (induction ms arbitrary: s w) (auto simp: Let_def)

lemma mappingio_ok:
  "java env (mappingio_args jar yarn) = 0 \<Longrightarrow>
   mappingio env jar yarn w = (Inr (), log_event (Mappingio (mappingio_args jar yarn)) w)"
  by (simp add: mappingio_def Let_def)

lemma update_jars_one_dirty:
  assumes "map_of (fst s) (jm_jar_key m) \<noteq> Some (from_jar_descs_mapping m)"
    and "java env (mappingio_args (from_jar_descs_mapping m) yarn) = 0"
  shows "update_jars env yd yarn [m] s w =
     (Inr (AList.update (jm_jar_key m) (from_jar_descs_mapping m) (fst s), True),
      log_event (Mappingio (mappingio_args (from_jar_descs_mapping m) yarn)) w)"
  using assms by (auto simp: Let_def mappingio_ok split: option.splits)

lemma update_jars_selective:
  assumes "distinct (map jm_jar_key ms)" and "m \<in> set ms"
    and "map_of (fst s) (jm_jar_key m) \<noteq> Some (from_jar_descs_mapping m)"
    and "\<forall>m'\<in>set ms. m' \<noteq> m \<longrightarrow> map_of (fst s) (jm_jar_key m') = Some (from_jar_descs_mapping m')"
    and "java env (mappingio_args (from_jar_descs_mapping m) yarn) = 0"
  shows "update_jars env False yarn ms s w =
     (Inr (AList.update (jm_jar_key m) (from_jar_descs_mapping m) (fst s), True),
      log_event (Mappingio (mappingio_args (from_jar_descs_mapping m) yarn)) w)"
proof -
  from assms(2) obtain pre post where ms: "ms = pre @ m # post"
    by (auto dest: split_list)
  let ?s1 = "(AList.update (jm_jar_key m) (from_jar_descs_mapping m) (fst s), True)"
  let ?w1 = "log_event (Mappingio (mappingio_args (from_jar_descs_mapping m) yarn)) w"
  from assms(1) have k: "jm_jar_key m \<notin> jm_jar_key ` set pre" "jm_jar_key m \<notin> jm_jar_key ` set post"
    unfolding ms by simp_all
  have npre: "m \<notin> set pre" and npost: "m \<notin> set post"
    using k by blast+
  have kpost: "\<forall>m'\<in>set post. jm_jar_key m' \<noteq> jm_jar_key m"
    using k(2) by (metis imageI)
  have pre: "update_jars env False yarn pre s w = (Inr s, w)"
    using assms(4) npre by (intro update_jars_clean) (auto simp: ms)
  have one: "update_jars env False yarn [m] s w = (Inr ?s1, ?w1)"
    by (rule update_jars_one_dirty [OF assms(3,5)])
  have "\<forall>m'\<in>set post. map_of (fst ?s1) (jm_jar_key m') = Some (from_jar_descs_mapping m')"
    using assms(4) npost kpost by (auto simp: ms update_conv')
  then have post: "update_jars env False yarn post ?s1 ?w1 = (Inr ?s1, ?w1)"
    by (rule update_jars_clean)
  have "update_jars env False yarn ms s w = update_jars env False yarn ([m] @ post) s w"
    unfolding ms by (subst update_jars_append) (simp add: pre)
  also have "\<dots> = (Inr ?s1, ?w1)"
    by (subst update_jars_append) (simp only: one post prod.case sum.case)
  finally show ?thesis .
qed

lemma update_jars_all:
  assumes "\<forall>m\<in>set ms. java env (mappingio_args (from_jar_descs_mapping m) yarn) = 0"
  shows "\<exists>jars'. update_jars env True yarn ms (jars, True) w =
     (Inr (jars', True),
      w\<lparr>trace := trace w @ map (\<lambda>m. Mappingio (mappingio_args (from_jar_descs_mapping m) yarn)) ms\<rparr>)"
  using assms
proof (induction ms arbitrary: jars w)
  case Nil
  then show ?case by simp
next
  case (Cons m ms)
  let ?w1 = "log_event (Mappingio (mappingio_args (from_jar_descs_mapping m) yarn)) w"
  from Cons.prems have j: "java env (mappingio_args (from_jar_descs_mapping m) yarn) = 0"
    and r: "\<forall>m\<in>set ms. java env (mappingio_args (from_jar_descs_mapping m) yarn) = 0"
    by simp_all
  define jars1' where "jars1' =
     (if (case map_of jars (jm_jar_key m) of None \<Rightarrow> True
          | Some stored \<Rightarrow> stored \<noteq> from_jar_descs_mapping m)
      then AList.update (jm_jar_key m) (from_jar_descs_mapping m) jars else jars)"
  have "update_jars env True yarn (m # ms) (jars, True) w
          = update_jars env True yarn ms (jars1', True) ?w1"
    by (simp add: Let_def mappingio_ok [OF j] jars1'_def)
  then have "\<exists>jars1. update_jars env True yarn (m # ms) (jars, True) w
          = update_jars env True yarn ms (jars1, True) ?w1" ..
  then obtain jars1 where
    step: "update_jars env True yarn (m # ms) (jars, True) w = update_jars env True yarn ms (jars1, True) ?w1"
    by blast
  from Cons.IH [OF r, of jars1 ?w1] show ?case
    unfolding step by (auto simp: log_event_def)
qed


lemma update_jars_selective_world:
  assumes "distinct (map jm_jar_key ms)" and "m \<in> set ms"
    and "map_of (fst s) (jm_jar_key m) \<noteq> Some (from_jar_descs_mapping m)"
    and "\<forall>m'\<in>set ms. m' \<noteq> m \<longrightarrow> map_of (fst s) (jm_jar_key m') = Some (from_jar_descs_mapping m')"
  shows "snd (update_jars env False yarn ms s w) =
      log_event (Mappingio (mappingio_args (from_jar_descs_mapping m) yarn)) w"
proof (cases "java env (mappingio_args (from_jar_descs_mapping m) yarn) = 0")
  case True
  from update_jars_selective [OF assms True] show ?thesis by simp
next
  case False
  from assms(2) obtain pre post where ms: "ms = pre @ m # post"
    by (auto dest: split_list)
  from assms(1) have k: "jm_jar_key m \<notin> jm_jar_key ` set pre"
    unfolding ms by simp
  have npre: "m \<notin> set pre"
    using k by blast
  have pre: "update_jars env False yarn pre s w = (Inr s, w)"
    using assms(4) npre by (intro update_jars_clean) (auto simp: ms)
  have one: "update_jars env False yarn (m # post) s w =
      (Inl MappingIOError, log_event (Mappingio (mappingio_args (from_jar_descs_mapping m) yarn)) w)"
    using assms(3) False by (auto simp: Let_def mappingio_def split: option.splits)
  show ?thesis
    unfolding ms by (subst update_jars_append) (simp only: pre one prod.case sum.case snd_conv)
qed

text \<open>
  C3. When the version's yarn is unchanged and, among description entries with pairwise
  different jar keys, exactly one entry \<open>m\<close> differs from (or is missing in) the stored
  jar map, the whole pass adds one event to the world: the merge tool's run for \<open>m\<close>.
  No other merge runs, nothing is requested from the artifact store, no file is written;
  when the tool succeeds, the result stores \<open>m\<close> and reports dirty.
\<close>

theorem CombinedCombined_update_selective:
  assumes "cc_yarn self =
             from_fabric_yarn fabric_yarn (cc_version_id self) (cc_version_release_time self)"
    and "distinct (map jm_jar_key ms)"
    and "m \<in> set ms"
    and "map_of (cc_jars self) (jm_jar_key m) \<noteq> Some (from_jar_descs_mapping m)"
    and "\<forall>m'\<in>set ms. m' \<noteq> m \<longrightarrow>
           map_of (cc_jars self) (jm_jar_key m') = Some (from_jar_descs_mapping m')"
  shows "snd (CombinedCombined_update env self fabric_yarn ms w)
           = log_event (Mappingio (mappingio_args (from_jar_descs_mapping m) (cc_yarn self))) w
         \<and> (java env (mappingio_args (from_jar_descs_mapping m) (cc_yarn self)) = 0 \<longrightarrow>
              fst (CombinedCombined_update env self fabric_yarn ms w)
                = Inr (self\<lparr>cc_jars := sort_dict (AList.update (jm_jar_key m)
                                          (from_jar_descs_mapping m) (cc_jars self))\<rparr>, True))"
proof -
  let ?s = "(cc_jars self, False)"
  have u: "CombinedCombined_update env self fabric_yarn ms w
             = update_jars_and_sort env False self ms w"
    using assms(1) by (simp add: CombinedCombined_update_def Let_def)
  have w: "snd (update_jars env False (cc_yarn self) ms ?s w)
             = log_event (Mappingio (mappingio_args (from_jar_descs_mapping m) (cc_yarn self))) w"
    using assms(2-5) by (intro update_jars_selective_world) simp_all
  have 1: "snd (update_jars_and_sort env False self ms w)
             = snd (update_jars env False (cc_yarn self) ms ?s w)"
    by (auto simp: update_jars_and_sort_def split: prod.splits sum.splits)
  have 2: "fst (update_jars_and_sort env False self ms w)
                = Inr (self\<lparr>cc_jars := sort_dict (AList.update (jm_jar_key m)
                                          (from_jar_descs_mapping m) (cc_jars self))\<rparr>, True)"
    if j: "java env (mappingio_args (from_jar_descs_mapping m) (cc_yarn self)) = 0"
  proof -
    have "update_jars env False (cc_yarn self) ms ?s w =
       (Inr (AList.update (jm_jar_key m) (from_jar_descs_mapping m) (fst ?s), True),
        log_event (Mappingio (mappingio_args (from_jar_descs_mapping m) (cc_yarn self))) w)"
      using assms(2-5) j by (intro update_jars_selective) simp_all
    then show ?thesis by (simp add: update_jars_and_sort_def)
  qed
  show ?thesis using 1 2 w by (simp add: u)
qed

theorem CombinedCombined_update_selective_witness:
  "cc_yarn ex_cc = from_fabric_yarn (ex_entry ''A'' 5) (cc_version_id ex_cc)
                     (cc_version_release_time ex_cc)
   \<and> distinct (map jm_jar_key [ex_jar ''client'' ''c2'', ex_jar ''server'' ''s1''])
   \<and> map_of (cc_jars ex_cc) ''client'' \<noteq> Some (ex_jar ''client'' ''c2'')
   \<and> map_of (cc_jars ex_cc) ''server'' = Some (ex_jar ''server'' ''s1'')
   \<and> java ex_env (mappingio_args (ex_jar ''client'' ''c2'') (cc_yarn ex_cc)) = 0
   \<and> trace (snd (CombinedCombined_update ex_env ex_cc (ex_entry ''A'' 5)
                   [ex_jar ''client'' ''c2'', ex_jar ''server'' ''s1''] ex_world_empty))
       = [Mappingio (mappingio_args (ex_jar ''client'' ''c2'') (cc_yarn ex_cc))]
   \<and> fst (CombinedCombined_update ex_env ex_cc (ex_entry ''A'' 5)
            [ex_jar ''client'' ''c2'', ex_jar ''server'' ''s1''] ex_world_empty)
       = Inr (ex_cc\<lparr>cc_jars := sort_dict (AList.update ''client'' (ex_jar ''client'' ''c2'')
                                             (cc_jars ex_cc))\<rparr>, True)"
proof -
  let ?ms = "[ex_jar ''client'' ''c2'', ex_jar ''server'' ''s1'']"
  let ?m = "ex_jar ''client'' ''c2''"
  have a: "cc_yarn ex_cc = from_fabric_yarn (ex_entry ''A'' 5) (cc_version_id ex_cc)
                     (cc_version_release_time ex_cc)"
    by code_simp
  have b: "distinct (map jm_jar_key ?ms)"
    by code_simp
  have c: "?m \<in> set ?ms"
    by simp
  have d: "map_of (cc_jars ex_cc) (jm_jar_key ?m) \<noteq> Some (from_jar_descs_mapping ?m)"
    by code_simp
  have e: "\<forall>m'\<in>set ?ms. m' \<noteq> ?m \<longrightarrow>
           map_of (cc_jars ex_cc) (jm_jar_key m') = Some (from_jar_descs_mapping m')"
    by code_simp
  have f: "java ex_env (mappingio_args (ex_jar ''client'' ''c2'') (cc_yarn ex_cc)) = 0"
    by (simp add: ex_env_def)
  have k: "jm_jar_key ?m = ''client''" "jm_jar_key (ex_jar ''server'' ''s1'') = ''server''"
    by (simp_all add: ex_jar_def)
  have d': "map_of (cc_jars ex_cc) ''client'' \<noteq> Some (ex_jar ''client'' ''c2'')"
    by code_simp
  have srv: "map_of (cc_jars ex_cc) ''server'' = Some (ex_jar ''server'' ''s1'')"
    by code_simp
  note r = CombinedCombined_update_selective [OF a b c d e, of ex_env ex_world_empty]
  have tr: "trace (snd (CombinedCombined_update ex_env ex_cc (ex_entry ''A'' 5) ?ms ex_world_empty))
       = [Mappingio (mappingio_args (ex_jar ''client'' ''c2'') (cc_yarn ex_cc))]"
    using r by (simp add: from_jar_descs_mapping_def log_event_def ex_world_empty_def)
  have res: "fst (CombinedCombined_update ex_env ex_cc (ex_entry ''A'' 5) ?ms ex_world_empty)
       = Inr (ex_cc\<lparr>cc_jars := sort_dict (AList.update ''client'' (ex_jar ''client'' ''c2'')
                                             (cc_jars ex_cc))\<rparr>, True)"
    using r f by (simp add: from_jar_descs_mapping_def k)
  from a b d' srv f tr res show ?thesis
    by blast
qed

lemma update_jars_Cons_cases:
  "update_jars env yd yarn (m # ms) s w = (Inr s', w') \<Longrightarrow>
   update_jars env yd yarn ms s w = (Inr s', w')
   \<or> update_jars env yd yarn ms s
        (log_event (Mappingio (mappingio_args (from_jar_descs_mapping m) yarn)) w) = (Inr s', w')
   \<or> update_jars env yd yarn ms
        (AList.update (jm_jar_key m) (from_jar_descs_mapping m) (fst s), True)
        (log_event (Mappingio (mappingio_args (from_jar_descs_mapping m) yarn)) w) = (Inr s', w')"
  by (simp add: Let_def mappingio_def split: if_splits)

lemma update_jars_Cons_Inr:
  "update_jars env yd yarn (m # ms) s w = (Inr s', w') \<Longrightarrow>
   \<exists>s1 w1. update_jars env yd yarn ms s1 w1 = (Inr s', w') \<and>
      (s1 = s \<or> s1 = (AList.update (jm_jar_key m) (from_jar_descs_mapping m) (fst s), True)) \<and>
      (w1 = w \<or> w1 = log_event (Mappingio (mappingio_args (from_jar_descs_mapping m) yarn)) w)"
  by (drule update_jars_Cons_cases) blast

lemma update_jars_keys:
  "update_jars env yd yarn ms s w = (Inr s', w') \<Longrightarrow> fst ` set (fst s) \<subseteq> fst ` set (fst s')"
proof (induction ms arbitrary: s w)
  case Nil
  then show ?case by simp
next
  case (Cons m ms)
  from update_jars_Cons_Inr [OF Cons.prems] obtain s1 w1 where
    r: "update_jars env yd yarn ms s1 w1 = (Inr s', w')" and
    s1: "s1 = s \<or> s1 = (AList.update (jm_jar_key m) (from_jar_descs_mapping m) (fst s), True)"
    by blast
  from s1 have "fst ` set (fst s) \<subseteq> fst ` set (fst s1)"
    by (elim disjE) (simp_all add: dom_update subset_insertI)
  with Cons.IH [OF r] show ?case by blast
qed

lemma update_jars_untouched:
  "update_jars env yd yarn ms s w = (Inr s', w') \<Longrightarrow> k \<notin> jm_jar_key ` set ms \<Longrightarrow>
   map_of (fst s') k = map_of (fst s) k"
proof (induction ms arbitrary: s w)
  case Nil
  then show ?case by simp
next
  case (Cons m ms)
  from update_jars_Cons_Inr [OF Cons.prems(1)] obtain s1 w1 where
    r: "update_jars env yd yarn ms s1 w1 = (Inr s', w')" and
    s1: "s1 = s \<or> s1 = (AList.update (jm_jar_key m) (from_jar_descs_mapping m) (fst s), True)"
    by blast
  from Cons.prems(2) have k: "k \<noteq> jm_jar_key m" "k \<notin> jm_jar_key ` set ms"
    by auto
  from s1 k(1) have "map_of (fst s1) k = map_of (fst s) k"
    by (auto simp: update_conv')
  with Cons.IH [OF r k(2)] show ?case by simp
qed

lemma update_jars_distinct:
  "update_jars env yd yarn ms s w = (Inr s', w') \<Longrightarrow> distinct (map fst (fst s)) \<Longrightarrow>
   distinct (map fst (fst s'))"
proof (induction ms arbitrary: s w)
  case Nil
  then show ?case by simp
next
  case (Cons m ms)
  from update_jars_Cons_Inr [OF Cons.prems(1)] obtain s1 w1 where
    r: "update_jars env yd yarn ms s1 w1 = (Inr s', w')" and
    s1: "s1 = s \<or> s1 = (AList.update (jm_jar_key m) (from_jar_descs_mapping m) (fst s), True)"
    by blast
  from s1 Cons.prems(2) have "distinct (map fst (fst s1))"
    by (auto simp: distinct_update)
  with Cons.IH [OF r] show ?case by simp
qed

lemma update_jars_events:
  "update_jars env yd yarn ms s w = (Inr s', w') \<Longrightarrow>
   \<exists>ns. set ns \<subseteq> set ms \<and>
     trace w' = trace w @ map (\<lambda>m. Mappingio (mappingio_args (from_jar_descs_mapping m) yarn)) ns"
proof (induction ms arbitrary: s w)
  case Nil
  then show ?case by simp
next
  case (Cons m ms)
  from update_jars_Cons_Inr [OF Cons.prems(1)] obtain s1 w1 where
    r: "update_jars env yd yarn ms s1 w1 = (Inr s', w')" and
    w1: "w1 = w \<or> w1 = log_event (Mappingio (mappingio_args (from_jar_descs_mapping m) yarn)) w"
    by blast
  from Cons.IH [OF r] obtain ns where ns: "set ns \<subseteq> set ms"
    "trace w' = trace w1 @ map (\<lambda>m. Mappingio (mappingio_args (from_jar_descs_mapping m) yarn)) ns"
    by blast
  from w1 show ?case
  proof
    assume "w1 = w"
    with ns show ?thesis by (intro exI [of _ ns]) auto
  next
    assume "w1 = log_event (Mappingio (mappingio_args (from_jar_descs_mapping m) yarn)) w"
    with ns show ?thesis by (intro exI [of _ "m # ns"]) (auto simp: log_event_def)
  qed
qed

lemma download_full_events:
  "\<exists>es. trace (snd (download_full env y w)) = trace w @ es \<and> (\<forall>args. Mappingio args \<notin> set es)"
  by (auto simp: download_full_def Let_def log_event_def write_file_def split: option.splits)

lemma download_events:
  "\<exists>es. trace (snd (download env y w)) = trace w @ es \<and> (\<forall>args. Mappingio args \<notin> set es)"
proof -
  let ?w1 = "log_event (Get (cy_tiny_gz_url y @ ''.sha1'')) w"
  have t: "trace ?w1 = trace w @ [Get (cy_tiny_gz_url y @ ''.sha1'')]"
    by (simp add: log_event_def)
  have "download env y w = download_full env y w
      \<or> download env y w = download_full env y ?w1
      \<or> snd (download env y w) = ?w1"
    by (simp add: download_def Let_def split: option.splits)
  then consider (1) "download env y w = download_full env y w"
    | (2) "download env y w = download_full env y ?w1"
    | (3) "snd (download env y w) = ?w1"
    by blast
  then show ?thesis
  proof cases
    case 1
    then show ?thesis using download_full_events [of env y w] by simp
  next
    case 2
    from download_full_events [of env y ?w1] obtain es where
      "trace (snd (download_full env y ?w1)) = trace ?w1 @ es" "\<forall>args. Mappingio args \<notin> set es"
      by blast
    then show ?thesis
      unfolding 2 t by (intro exI [of _ "Get (cy_tiny_gz_url y @ ''.sha1'') # es"]) auto
  next
    case 3
    then show ?thesis using t by (intro exI [of _ "[Get (cy_tiny_gz_url y @ ''.sha1'')]"]) auto
  qed
qed

lemma update_jars_and_sort_frame:
  assumes "update_jars_and_sort env yd self ms w = (Inr (self', dirty), w')"
    and "distinct (map fst (cc_jars self))"
  shows "fst ` set (cc_jars self) \<subseteq> fst ` set (cc_jars self')"
    and "k \<notin> jm_jar_key ` set ms \<Longrightarrow> map_of (cc_jars self') k = map_of (cc_jars self) k"
    and "\<exists>ns. set ns \<subseteq> set ms \<and>
     trace w' = trace w @ map (\<lambda>m. Mappingio (mappingio_args (from_jar_descs_mapping m) (cc_yarn self'))) ns"
proof -
  from assms(1) obtain jars where
    u: "update_jars env yd (cc_yarn self) ms (cc_jars self, yd) w = (Inr (jars, dirty), w')" and
    j: "cc_jars self' = sort_dict jars \<or> cc_jars self' = jars" and
    y: "cc_yarn self' = cc_yarn self"
    by (auto simp: update_jars_and_sort_def split: prod.splits sum.splits if_splits)
  have d: "distinct (map fst jars)"
    using update_jars_distinct [OF u] assms(2) by simp
  have s: "set (cc_jars self') = set jars" and m: "map_of (cc_jars self') = map_of jars"
    using j d by (auto simp: sort_dict_def map_of_sort_key)
  show "fst ` set (cc_jars self) \<subseteq> fst ` set (cc_jars self')"
    using update_jars_keys [OF u] by (simp add: s)
  show "map_of (cc_jars self') k = map_of (cc_jars self) k" if "k \<notin> jm_jar_key ` set ms"
    using update_jars_untouched [OF u that] by (simp add: m)
  show "\<exists>ns. set ns \<subseteq> set ms \<and>
     trace w' = trace w @ map (\<lambda>m. Mappingio (mappingio_args (from_jar_descs_mapping m) (cc_yarn self'))) ns"
    using update_jars_events [OF u] by (simp add: y)
qed

text \<open>
  C10. A successful pass over an existing version never removes a key of its jar map. A
  key that is not the jar key of any current description entry keeps its stored value,
  and every run of the merge tool during the pass is for an entry of the current list,
  so none is for such a jar.
\<close>

theorem CombinedCombined_update_retains_jars:
  assumes "CombinedCombined_update env self fabric_yarn ms w = (Inr (self', dirty), w')"
    and "distinct (map fst (cc_jars self))"
  shows "fst ` set (cc_jars self) \<subseteq> fst ` set (cc_jars self')
    \<and> (\<forall>k. k \<notin> jm_jar_key ` set ms \<longrightarrow> map_of (cc_jars self') k = map_of (cc_jars self) k)
    \<and> (\<forall>args. Mappingio args \<in> set (new_events w w') \<longrightarrow>
          (\<exists>m\<in>set ms. args = mappingio_args (from_jar_descs_mapping m) (cc_yarn self')))"
proof -
  let ?ny = "from_fabric_yarn fabric_yarn (cc_version_id self) (cc_version_release_time self)"
  from assms(1) obtain self1 w1 yd where
    u: "update_jars_and_sort env yd self1 ms w1 = (Inr (self', dirty), w')" and
    j: "cc_jars self1 = cc_jars self" and
    w1: "w1 = w \<or> w1 = snd (download env ?ny w)"
    by (auto simp: CombinedCombined_update_def Let_def split: if_splits prod.splits sum.splits)
  have d: "distinct (map fst (cc_jars self1))"
    using assms(2) j by simp
  note f = update_jars_and_sort_frame [OF u d]
  from w1 download_events [of env ?ny w] obtain es where
    es: "trace w1 = trace w @ es" "\<forall>args. Mappingio args \<notin> set es"
    by auto
  from f(3) obtain ns where ns: "set ns \<subseteq> set ms"
    "trace w' = trace w1 @ map (\<lambda>m. Mappingio (mappingio_args (from_jar_descs_mapping m) (cc_yarn self'))) ns"
    by blast
  have n: "new_events w w' = es @ map (\<lambda>m. Mappingio (mappingio_args (from_jar_descs_mapping m) (cc_yarn self'))) ns"
    by (simp add: new_events_def ns(2) es(1))
  have 3: "\<forall>args. Mappingio args \<in> set (new_events w w') \<longrightarrow>
          (\<exists>m\<in>set ms. args = mappingio_args (from_jar_descs_mapping m) (cc_yarn self'))"
    unfolding n using es(2) ns(1) by auto
  show ?thesis
    using f(1) f(2) 3 by (simp add: j)
qed

theorem CombinedCombined_update_retains_jars_witness:
  "fst (CombinedCombined_update ex_env ex_cc (ex_entry ''A'' 6) [ex_jar ''client'' ''c1'']
          ex_world_empty)
     = Inr (ex_cc\<lparr>cc_yarn := from_fabric_yarn (ex_entry ''A'' 6) ''A'' 3\<rparr>, True)
   \<and> distinct (map fst (cc_jars ex_cc))
   \<and> ''server'' \<notin> jm_jar_key ` set [ex_jar ''client'' ''c1'']
   \<and> map_of (cc_jars (ex_cc\<lparr>cc_yarn := from_fabric_yarn (ex_entry ''A'' 6) ''A'' 3\<rparr>)) ''server''
       = map_of (cc_jars ex_cc) ''server''
   \<and> fst ` set (cc_jars ex_cc)
       \<subseteq> fst ` set (cc_jars (ex_cc\<lparr>cc_yarn := from_fabric_yarn (ex_entry ''A'' 6) ''A'' 3\<rparr>))"
proof -
  let ?run = "CombinedCombined_update ex_env ex_cc (ex_entry ''A'' 6) [ex_jar ''client'' ''c1'']
                ex_world_empty"
  let ?self' = "ex_cc\<lparr>cc_yarn := from_fabric_yarn (ex_entry ''A'' 6) ''A'' 3\<rparr>"
  have a: "fst ?run = Inr (?self', True)"
    by code_simp
  then have b: "?run = (Inr (?self', True), snd ?run)"
    by (metis prod.collapse)
  have c: "distinct (map fst (cc_jars ex_cc))"
    by code_simp
  have d: "''server'' \<notin> jm_jar_key ` set [ex_jar ''client'' ''c1'']"
    by (simp add: ex_jar_def)
  from CombinedCombined_update_retains_jars [OF b c] a c d show ?thesis
    by blast
qed

section \<open>The reconciler\<close>

lemma until_first_failure_all_ok:
  "\<forall>m\<in>set ms. java env (mappingio_args (from_jar_descs_mapping m) yarn) = 0 \<Longrightarrow>
   until_first_failure env yarn ms = ms"
  by (induction ms) simp_all

lemma update_jars_Cons_ok:
  "java env (mappingio_args (from_jar_descs_mapping m) yarn) = 0 \<Longrightarrow>
   \<exists>jars1. update_jars env True yarn (m # ms) (jars, True) w =
     update_jars env True yarn ms (jars1, True)
       (log_event (Mappingio (mappingio_args (from_jar_descs_mapping m) yarn)) w)"
proof -
  assume j: "java env (mappingio_args (from_jar_descs_mapping m) yarn) = 0"
  define jars1 where "jars1 =
     (if (case map_of jars (jm_jar_key m) of None \<Rightarrow> True
          | Some stored \<Rightarrow> stored \<noteq> from_jar_descs_mapping m)
      then AList.update (jm_jar_key m) (from_jar_descs_mapping m) jars else jars)"
  have "update_jars env True yarn (m # ms) (jars, True) w =
     update_jars env True yarn ms (jars1, True)
       (log_event (Mappingio (mappingio_args (from_jar_descs_mapping m) yarn)) w)"
    by (simp add: Let_def mappingio_ok [OF j] jars1_def)
  then show ?thesis ..
qed

lemma update_jars_Cons_fail:
  "java env (mappingio_args (from_jar_descs_mapping m) yarn) \<noteq> 0 \<Longrightarrow>
   update_jars env True yarn (m # ms) s w =
     (Inl MappingIOError, log_event (Mappingio (mappingio_args (from_jar_descs_mapping m) yarn)) w)"
  by (simp add: Let_def mappingio_def)

lemma update_jars_yarn_dirty_world:
  "snd (update_jars env True yarn ms (jars, True) w) =
     w\<lparr>trace := trace w @ map (\<lambda>m. Mappingio (mappingio_args (from_jar_descs_mapping m) yarn))
                            (until_first_failure env yarn ms)\<rparr>"
proof (induction ms arbitrary: jars w)
  case Nil
  show ?case by simp
next
  case (Cons m ms)
  show ?case
  proof (cases "java env (mappingio_args (from_jar_descs_mapping m) yarn) = 0")
    case True
    from update_jars_Cons_ok [OF True, of ms jars w] obtain jars1 where
      step: "update_jars env True yarn (m # ms) (jars, True) w =
        update_jars env True yarn ms (jars1, True)
          (log_event (Mappingio (mappingio_args (from_jar_descs_mapping m) yarn)) w)"
      by blast
    show ?thesis
      unfolding step Cons.IH using True by (simp add: log_event_def)
  next
    case False
    show ?thesis
      unfolding update_jars_Cons_fail [OF False] using False by (simp add: log_event_def)
  qed
qed

lemma update_jars_yarn_dirty_fails:
  "\<exists>m\<in>set ms. java env (mappingio_args (from_jar_descs_mapping m) yarn) \<noteq> 0 \<Longrightarrow>
   fst (update_jars env True yarn ms (jars, True) w) = Inl MappingIOError"
proof (induction ms arbitrary: jars w)
  case Nil
  then show ?case by simp
next
  case (Cons m ms)
  show ?case
  proof (cases "java env (mappingio_args (from_jar_descs_mapping m) yarn) = 0")
    case True
    from update_jars_Cons_ok [OF True, of ms jars w] obtain jars1 where
      step: "update_jars env True yarn (m # ms) (jars, True) w =
        update_jars env True yarn ms (jars1, True)
          (log_event (Mappingio (mappingio_args (from_jar_descs_mapping m) yarn)) w)"
      by blast
    from Cons.prems True
    have "\<exists>m\<in>set ms. java env (mappingio_args (from_jar_descs_mapping m) yarn) \<noteq> 0"
      by auto
    from Cons.IH [OF this] show ?thesis
      unfolding step .
  next
    case False
    show ?thesis
      unfolding update_jars_Cons_fail [OF False] by simp
  qed
qed

lemma update_jars_and_sort_snd:
  "snd (update_jars_and_sort env yd self ms w)
     = snd (update_jars env yd (cc_yarn self) ms (cc_jars self, yd) w)"
  by (auto simp: update_jars_and_sort_def split: prod.splits sum.splits)

lemma update_jars_and_sort_Inl:
  "fst (update_jars env yd (cc_yarn self) ms (cc_jars self, yd) w) = Inl e \<Longrightarrow>
   fst (update_jars_and_sort env yd self ms w) = Inl e"
  by (auto simp: update_jars_and_sort_def split: prod.splits sum.splits)

text \<open>
  C2 (as the code has it). When the candidate yarn differs from the stored one and its
  download succeeds, the merge tool is run for the entries of the description source's
  current list for that version, in the list's order and whether or not an entry differs
  from the stored jar, once each and nothing else: up to and including the first entry
  whose merge exits non-zero, which ends the pass in an error. When every merge exits 0
  this is every entry of the list; the pass then reports dirty with the new yarn stored,
  and a stored jar whose key is no entry's jar key keeps its stored value.
\<close>

theorem CombinedCombined_update_yarn_change:
  assumes "new_yarn =
             from_fabric_yarn fabric_yarn (cc_version_id self) (cc_version_release_time self)"
    and "cc_yarn self \<noteq> new_yarn"
    and "download env new_yarn w = (Inr (), w1)"
  shows "snd (CombinedCombined_update env self fabric_yarn ms w)
           = w1\<lparr>trace := trace w1 @
                  map (\<lambda>m. Mappingio (mappingio_args (from_jar_descs_mapping m) new_yarn))
                    (until_first_failure env new_yarn ms)\<rparr>
       \<and> ((\<exists>m\<in>set ms. java env (mappingio_args (from_jar_descs_mapping m) new_yarn) \<noteq> 0) \<longrightarrow>
            fst (CombinedCombined_update env self fabric_yarn ms w) = Inl MappingIOError)
       \<and> ((\<forall>m\<in>set ms. java env (mappingio_args (from_jar_descs_mapping m) new_yarn) = 0) \<longrightarrow>
            until_first_failure env new_yarn ms = ms
            \<and> (\<exists>self'. fst (CombinedCombined_update env self fabric_yarn ms w) = Inr (self', True)
                  \<and> cc_yarn self' = new_yarn
                  \<and> (distinct (map fst (cc_jars self)) \<longrightarrow>
                       (\<forall>k. k \<notin> jm_jar_key ` set ms \<longrightarrow>
                            map_of (cc_jars self') k = map_of (cc_jars self) k))))"
proof (intro conjI impI)
  let ?self1 = "self\<lparr>cc_yarn := new_yarn\<rparr>"
  let ?run = "CombinedCombined_update env self fabric_yarn ms w"
  have u: "?run = update_jars_and_sort env True ?self1 ms w1"
    using assms by (simp add: CombinedCombined_update_def Let_def)
  show "snd ?run = w1\<lparr>trace := trace w1 @
                  map (\<lambda>m. Mappingio (mappingio_args (from_jar_descs_mapping m) new_yarn))
                    (until_first_failure env new_yarn ms)\<rparr>"
    by (simp add: u update_jars_and_sort_snd update_jars_yarn_dirty_world)
  {
    assume "\<exists>m\<in>set ms. java env (mappingio_args (from_jar_descs_mapping m) new_yarn) \<noteq> 0"
    from update_jars_yarn_dirty_fails [OF this, of "cc_jars self" w1]
    have "fst (update_jars env True (cc_yarn ?self1) ms (cc_jars ?self1, True) w1)
            = Inl MappingIOError"
      by simp
    from update_jars_and_sort_Inl [OF this] show "fst ?run = Inl MappingIOError"
      by (simp add: u)
  }
  {
    assume ok: "\<forall>m\<in>set ms. java env (mappingio_args (from_jar_descs_mapping m) new_yarn) = 0"
    from ok show "until_first_failure env new_yarn ms = ms"
      by (rule until_first_failure_all_ok)
    from update_jars_all [OF ok, where jars = "cc_jars self" and w = w1]
    obtain jars' w2 where
      j: "update_jars env True new_yarn ms (cc_jars self, True) w1 = (Inr (jars', True), w2)"
      by blast
    let ?self' = "?self1\<lparr>cc_jars := sort_dict jars'\<rparr>"
    have r: "update_jars_and_sort env True ?self1 ms w1 = (Inr (?self', True), w2)"
      using j by (simp add: update_jars_and_sort_def)
    have k: "\<forall>k. k \<notin> jm_jar_key ` set ms \<longrightarrow> map_of (cc_jars ?self') k = map_of (cc_jars self) k"
      if d: "distinct (map fst (cc_jars self))"
    proof -
      from d have d1: "distinct (map fst (cc_jars ?self1))" by simp
      from update_jars_and_sort_frame(2) [OF r d1] show ?thesis by simp
    qed
    show "\<exists>self'. fst ?run = Inr (self', True) \<and> cc_yarn self' = new_yarn
            \<and> (distinct (map fst (cc_jars self)) \<longrightarrow>
                 (\<forall>k. k \<notin> jm_jar_key ` set ms \<longrightarrow>
                      map_of (cc_jars self') k = map_of (cc_jars self) k))"
      using k by (intro exI [of _ ?self']) (simp add: u r)
  }
qed

theorem CombinedCombined_update_yarn_change_witness:
  "cc_yarn ex_cc \<noteq> from_fabric_yarn (ex_entry ''A'' 6) ''A'' 3
   \<and> fst (download ex_env (from_fabric_yarn (ex_entry ''A'' 6) ''A'' 3) ex_world_empty) = Inr ()
   \<and> java ex_env (mappingio_args (ex_jar ''client'' ''c1'')
                      (from_fabric_yarn (ex_entry ''A'' 6) ''A'' 3)) = 0
   \<and> java ex_env (mappingio_args (ex_jar ''server'' ''s1'')
                      (from_fabric_yarn (ex_entry ''A'' 6) ''A'' 3)) = 0
   \<and> trace (snd (CombinedCombined_update ex_env ex_cc (ex_entry ''A'' 6)
                   [ex_jar ''client'' ''c1'', ex_jar ''server'' ''s1''] ex_world_empty))
       = trace (snd (download ex_env (from_fabric_yarn (ex_entry ''A'' 6) ''A'' 3)
                       ex_world_empty)) @
           [Mappingio (mappingio_args (ex_jar ''client'' ''c1'')
                         (from_fabric_yarn (ex_entry ''A'' 6) ''A'' 3)),
            Mappingio (mappingio_args (ex_jar ''server'' ''s1'')
                         (from_fabric_yarn (ex_entry ''A'' 6) ''A'' 3))]
   \<and> (\<exists>self'. fst (CombinedCombined_update ex_env ex_cc (ex_entry ''A'' 6)
                       [ex_jar ''client'' ''c1'', ex_jar ''server'' ''s1''] ex_world_empty)
                 = Inr (self', True)
              \<and> cc_yarn self' = from_fabric_yarn (ex_entry ''A'' 6) ''A'' 3)
   \<and> distinct (map fst (cc_jars ex_cc))
   \<and> ''server'' \<notin> jm_jar_key ` set [ex_jar ''client'' ''c1'']
   \<and> (\<exists>self'. fst (CombinedCombined_update ex_env ex_cc (ex_entry ''A'' 6)
                       [ex_jar ''client'' ''c1''] ex_world_empty) = Inr (self', True)
              \<and> map_of (cc_jars self') ''server'' = map_of (cc_jars ex_cc) ''server'')
   \<and> fst (download ex_env_tool_fails (from_fabric_yarn (ex_entry ''A'' 6) ''A'' 3)
            ex_world_empty) = Inr ()
   \<and> java ex_env_tool_fails (mappingio_args (ex_jar ''client'' ''c1'')
                                 (from_fabric_yarn (ex_entry ''A'' 6) ''A'' 3)) \<noteq> 0
   \<and> fst (CombinedCombined_update ex_env_tool_fails ex_cc (ex_entry ''A'' 6)
            [ex_jar ''client'' ''c1'', ex_jar ''server'' ''s1''] ex_world_empty)
       = Inl MappingIOError
   \<and> trace (snd (CombinedCombined_update ex_env_tool_fails ex_cc (ex_entry ''A'' 6)
                   [ex_jar ''client'' ''c1'', ex_jar ''server'' ''s1''] ex_world_empty))
       = trace (snd (download ex_env_tool_fails (from_fabric_yarn (ex_entry ''A'' 6) ''A'' 3)
                       ex_world_empty)) @
           [Mappingio (mappingio_args (ex_jar ''client'' ''c1'')
                         (from_fabric_yarn (ex_entry ''A'' 6) ''A'' 3))]"
proof -
  let ?ny = "from_fabric_yarn (ex_entry ''A'' 6) ''A'' 3"
  let ?ms = "[ex_jar ''client'' ''c1'', ex_jar ''server'' ''s1'']"
  have a: "?ny = from_fabric_yarn (ex_entry ''A'' 6) (cc_version_id ex_cc)
                   (cc_version_release_time ex_cc)"
    by (simp add: ex_cc_def)
  have b: "cc_yarn ex_cc \<noteq> ?ny"
    by code_simp
  have c1: "fst (download ex_env ?ny ex_world_empty) = Inr ()"
    by code_simp
  then have d1: "download ex_env ?ny ex_world_empty
                   = (Inr (), snd (download ex_env ?ny ex_world_empty))"
    by (metis prod.collapse)
  have c2: "fst (download ex_env_tool_fails ?ny ex_world_empty) = Inr ()"
    by code_simp
  then have d2: "download ex_env_tool_fails ?ny ex_world_empty
                   = (Inr (), snd (download ex_env_tool_fails ?ny ex_world_empty))"
    by (metis prod.collapse)
  have ok: "\<forall>m\<in>set ?ms. java ex_env (mappingio_args (from_jar_descs_mapping m) ?ny) = 0"
    by (simp add: ex_env_def)
  have ok1: "\<forall>m\<in>set [ex_jar ''client'' ''c1''].
               java ex_env (mappingio_args (from_jar_descs_mapping m) ?ny) = 0"
    by (simp add: ex_env_def)
  have bad: "\<exists>m\<in>set ?ms.
               java ex_env_tool_fails (mappingio_args (from_jar_descs_mapping m) ?ny) \<noteq> 0"
    by (auto simp: ex_env_tool_fails_def)
  have u: "until_first_failure ex_env_tool_fails ?ny ?ms = [ex_jar ''client'' ''c1'']"
    by (simp add: ex_env_tool_fails_def)
  have dist: "distinct (map fst (cc_jars ex_cc))"
    by code_simp
  have k: "''server'' \<notin> jm_jar_key ` set [ex_jar ''client'' ''c1'']"
    by (simp add: ex_jar_def)
  note r1 = CombinedCombined_update_yarn_change [OF a b d1, of ?ms]
  note r2 = CombinedCombined_update_yarn_change [OF a b d2, of ?ms]
  note r3 = CombinedCombined_update_yarn_change [OF a b d1, of "[ex_jar ''client'' ''c1'']"]
  from r1 ok have 1: "trace (snd (CombinedCombined_update ex_env ex_cc (ex_entry ''A'' 6) ?ms
                                    ex_world_empty))
       = trace (snd (download ex_env ?ny ex_world_empty)) @
           [Mappingio (mappingio_args (ex_jar ''client'' ''c1'') ?ny),
            Mappingio (mappingio_args (ex_jar ''server'' ''s1'') ?ny)]"
    by (simp add: from_jar_descs_mapping_def)
  from r1 ok have 2: "\<exists>self'. fst (CombinedCombined_update ex_env ex_cc (ex_entry ''A'' 6) ?ms
                                     ex_world_empty) = Inr (self', True)
              \<and> cc_yarn self' = ?ny"
    by blast
  from r3 ok1 dist k have 3: "\<exists>self'. fst (CombinedCombined_update ex_env ex_cc (ex_entry ''A'' 6)
                       [ex_jar ''client'' ''c1''] ex_world_empty) = Inr (self', True)
              \<and> map_of (cc_jars self') ''server'' = map_of (cc_jars ex_cc) ''server''"
    by blast
  from r2 bad have 4: "fst (CombinedCombined_update ex_env_tool_fails ex_cc (ex_entry ''A'' 6) ?ms
                              ex_world_empty) = Inl MappingIOError"
    by blast
  from r2 have "snd (CombinedCombined_update ex_env_tool_fails ex_cc (ex_entry ''A'' 6) ?ms
                       ex_world_empty)
       = (snd (download ex_env_tool_fails ?ny ex_world_empty))
           \<lparr>trace := trace (snd (download ex_env_tool_fails ?ny ex_world_empty)) @
              map (\<lambda>m. Mappingio (mappingio_args (from_jar_descs_mapping m) ?ny))
                (until_first_failure ex_env_tool_fails ?ny ?ms)\<rparr>"
    by (rule conjunct1)
  then have 5: "trace (snd (CombinedCombined_update ex_env_tool_fails ex_cc (ex_entry ''A'' 6)
                                 ?ms ex_world_empty))
       = trace (snd (download ex_env_tool_fails ?ny ex_world_empty)) @
           [Mappingio (mappingio_args (ex_jar ''client'' ''c1'') ?ny)]"
    unfolding u by (simp add: from_jar_descs_mapping_def)
  have ok': "java ex_env (mappingio_args (ex_jar ''client'' ''c1'') ?ny) = 0"
    "java ex_env (mappingio_args (ex_jar ''server'' ''s1'') ?ny) = 0"
    by (simp_all add: ex_env_def)
  have bad': "java ex_env_tool_fails (mappingio_args (ex_jar ''client'' ''c1'') ?ny) \<noteq> 0"
    by (simp add: ex_env_tool_fails_def)
  from b c1 ok' 1 2 dist k 3 c2 bad' 4 5 show ?thesis
    by blast
qed

text \<open>
  C2 as stated fails where a stored jar is no longer listed by the description source:
  version \<open>A\<close> stores \<open>client\<close> and \<open>server\<close>, the yarn moves from build 5 to build 6 and
  the source lists \<open>client\<close> only. The pass succeeds and runs the merge tool for
  \<open>client\<close> alone; \<open>server\<close> stays stored and is not regenerated.
\<close>

theorem CombinedCombined_update_yarn_change_counterexample:
  "cc_yarn ex_cc \<noteq> from_fabric_yarn (ex_entry ''A'' 6) ''A'' 3
   \<and> map_of (cc_jars ex_cc) ''server'' = Some (ex_jar ''server'' ''s1'')
   \<and> fst (CombinedCombined_update ex_env ex_cc (ex_entry ''A'' 6) [ex_jar ''client'' ''c1'']
            ex_world_empty)
       = Inr (ex_cc\<lparr>cc_yarn := from_fabric_yarn (ex_entry ''A'' 6) ''A'' 3\<rparr>, True)
   \<and> trace (snd (CombinedCombined_update ex_env ex_cc (ex_entry ''A'' 6)
                   [ex_jar ''client'' ''c1''] ex_world_empty))
       = [Get (tiny_gz_url ''A+build''),
          WriteBytes ''mappings/A-yarn.tiny.gz'' ''GZ'',
          WriteText ''mappings/A-yarn.tiny'' ''tiny'',
          Mappingio (mappingio_args (ex_jar ''client'' ''c1'')
                       (from_fabric_yarn (ex_entry ''A'' 6) ''A'' 3))]"
  by code_simp

lemma update_jars_dirty_mono:
  "update_jars env yd yarn ms s w = (Inr s', w') \<Longrightarrow> snd s \<Longrightarrow> snd s'"
proof (induction ms arbitrary: s w)
  case Nil
  then show ?case by auto
next
  case (Cons m ms)
  from update_jars_Cons_Inr [OF Cons.prems(1)] obtain s1 w1 where
    r: "update_jars env yd yarn ms s1 w1 = (Inr s', w')" and
    s1: "s1 = s \<or> s1 = (AList.update (jm_jar_key m) (from_jar_descs_mapping m) (fst s), True)"
    by blast
  from s1 Cons.prems(2) have "snd s1" by auto
  with Cons.IH [OF r] show ?case .
qed

lemma update_jars_clean_result:
  "update_jars env False yarn ms s w = (Inr s', w') \<Longrightarrow> \<not> snd s' \<Longrightarrow> s' = s \<and> w' = w"
proof (induction ms arbitrary: s w)
  case Nil
  then show ?case by simp
next
  case (Cons m ms)
  let ?jd = "case map_of (fst s) (jm_jar_key m) of None \<Rightarrow> True
             | Some stored \<Rightarrow> stored \<noteq> from_jar_descs_mapping m"
  show ?case
  proof (cases ?jd)
    case True
    with Cons.prems(1) obtain w1 where
      "update_jars env False yarn ms
         (AList.update (jm_jar_key m) (from_jar_descs_mapping m) (fst s), True) w1 = (Inr s', w')"
      by (simp add: Let_def split: prod.splits sum.splits)
    from update_jars_dirty_mono [OF this] Cons.prems(2) show ?thesis by simp
  next
    case False
    with Cons.prems(1) have "update_jars env False yarn ms s w = (Inr s', w')"
      by (simp add: Let_def)
    from Cons.IH [OF this Cons.prems(2)] show ?thesis .
  qed
qed

lemma update_jars_and_sort_clean:
  assumes "update_jars_and_sort env yd self ms w = (Inr (self', False), w')"
  shows "\<not> yd \<and> self' = self \<and> w' = w"
proof -
  from assms obtain jars where
    u: "update_jars env yd (cc_yarn self) ms (cc_jars self, yd) w = (Inr (jars, False), w')" and
    s: "self' = self\<lparr>cc_jars := jars\<rparr>"
    by (auto simp: update_jars_and_sort_def split: prod.splits sum.splits)
  from update_jars_dirty_mono [OF u] have yd: "\<not> yd" by auto
  from update_jars_clean_result [of env "cc_yarn self" ms "(cc_jars self, yd)" w "(jars, False)" w'] u yd
  have "jars = cc_jars self" "w' = w" by auto
  with s yd show ?thesis by simp
qed

lemma CombinedCombined_update_clean:
  assumes "CombinedCombined_update env self fabric_yarn ms w = (Inr (self', False), w')"
  shows "self' = self \<and> w' = w"
proof -
  from assms obtain self1 w1 yd where
    u: "update_jars_and_sort env yd self1 ms w1 = (Inr (self', False), w')" and
    c: "yd \<or> (self1 = self \<and> w1 = w)"
    by (auto simp: CombinedCombined_update_def Let_def split: if_splits prod.splits sum.splits)
  from update_jars_and_sort_clean [OF u] c show ?thesis by auto
qed

lemma Combined_update_version_dirty_mono:
  "Combined_update_version env jar_descs item s w = (Inr s', w') \<Longrightarrow> snd s \<Longrightarrow> snd s'"
  by (auto simp: Combined_update_version_def Let_def
           split: sum.splits option.splits prod.splits if_splits)

lemma Combined_update_version_clean:
  assumes "Combined_update_version env jar_descs item s w = (Inr s', w')" and "\<not> snd s'"
  shows "s' = s \<and> w' = w"
proof -
  from assms obtain version_id existing js updated where
    m: "map_of (fst s) version_id = Some existing" and
    u: "CombinedCombined_update env existing (snd item) js w = (Inr (updated, False), w')" and
    s': "s' = (AList.update version_id updated (fst s), snd s)"
    by (auto simp: Combined_update_version_def Let_def
           split: sum.splits option.splits prod.splits if_splits)
  from CombinedCombined_update_clean [OF u] have "updated = existing" "w' = w" by simp_all
  with m s' show ?thesis by (simp add: update_triv)
qed

lemma Combined_update_loop_clean:
  "Combined_update_loop env jar_descs items s w = (Inr s', w') \<Longrightarrow> \<not> snd s' \<Longrightarrow>
   s' = s \<and> w' = w"
proof (induction items arbitrary: s w)
  case Nil
  then show ?case by simp
next
  case (Cons item items)
  from Cons.prems(1) obtain s1 w1 where
    v: "Combined_update_version env jar_descs item s w = (Inr s1, w1)" and
    r: "Combined_update_loop env jar_descs items s1 w1 = (Inr s', w')"
    by (auto split: prod.splits sum.splits)
  from Cons.IH [OF r Cons.prems(2)] have e: "s' = s1" "w' = w1" by simp_all
  with Cons.prems(2) have "\<not> snd s1" by simp
  from Combined_update_version_clean [OF v this] e show ?case by simp
qed

lemma Combined_update_timestamps:
  assumes "Combined_update env fabric jar_descs self w = (Inr (self', dirty), w')"
  shows "c_fabric_timestamp self' = f_timestamp fabric
       \<and> c_jar_descs_timestamp self' = jd_timestamp jar_descs"
  using assms
  by (auto simp: Combined_update_def split: if_splits prod.splits sum.splits)

lemma Combined_update_short_circuit_eq:
  "c_fabric_timestamp self = f_timestamp fabric \<Longrightarrow>
   c_jar_descs_timestamp self = jd_timestamp jar_descs \<Longrightarrow>
   Combined_update env fabric jar_descs self w = (Inr (self, False), w)"
  by (simp add: Combined_update_def)

lemma Combined_update_clean:
  assumes "Combined_update env fabric jar_descs self w = (Inr (self', False), w')"
  shows "w' = w \<and> combined self' = combined self"
proof (cases "c_fabric_timestamp self = f_timestamp fabric
         \<and> c_jar_descs_timestamp self = jd_timestamp jar_descs")
  case True
  with assms show ?thesis by (simp add: Combined_update_def)
next
  case False
  with assms obtain comb where
    l: "Combined_update_loop env jar_descs (f_yarn fabric) (combined self, False) w
          = (Inr (comb, False), w')" and
    s: "combined self' = comb"
    by (auto simp: Combined_update_def split: prod.splits sum.splits)
  from Combined_update_loop_clean [OF l] s show ?thesis by simp
qed


lemma index_of_None_iff: "index_of xs x = None \<longleftrightarrow> x \<notin> set xs"
  by (induction xs) auto

lemma sort_dict_key_sorted:
  assumes "sort_dict_key key d = Inr d'"
  shows "sorted (map (\<lambda>i. the (key i)) d')" and "None \<notin> key ` set d'"
proof -
  from assms have n: "None \<notin> key ` set d" and d': "d' = sort_key (\<lambda>i. the (key i)) d"
    by (simp_all add: sort_dict_key_def split: if_splits)
  show "sorted (map (\<lambda>i. the (key i)) d')"
    unfolding d' by (rule sorted_sort_key)
  show "None \<notin> key ` set d'"
    using n unfolding d' by simp
qed

text \<open>
  C5. After a successful reconcile that reports dirty, the versions of the combined map
  appear in the order of the registry's discovery list: along the map, the position of
  each version's version_file_id in that list never decreases, and every such identifier
  is in the list.
\<close>

theorem Combined_update_order:
  assumes "Combined_update env fabric jar_descs self w = (Inr (self', True), w')"
  shows "sorted (map (\<lambda>i. the (index_of (sorted_version_file_ids fabric)
                                 (cc_version_file_id (snd i)))) (combined self'))
       \<and> (\<forall>i\<in>set (combined self').
             cc_version_file_id (snd i) \<in> set (sorted_version_file_ids fabric))"
proof -
  let ?key = "\<lambda>i. index_of (sorted_version_file_ids fabric) (cc_version_file_id (snd i))"
  from assms obtain comb where s: "sort_dict_key ?key comb = Inr (combined self')"
    by (auto simp: Combined_update_def split: if_splits prod.splits sum.splits)
  note r = sort_dict_key_sorted [OF s]
  have "cc_version_file_id (snd i) \<in> set (sorted_version_file_ids fabric)"
    if "i \<in> set (combined self')" for i
  proof -
    from that r(2) have "?key i \<noteq> None"
      by (metis imageI)
    then show ?thesis
      by (simp add: index_of_None_iff)
  qed
  with r(1) show ?thesis
    by blast
qed

theorem Combined_update_order_witness:
  "fst (Combined_update ex_env ex_registry ex_jar_descs ex_combined ex_world_empty)
     = Inr (ex_combined_after, True)
   \<and> map fst (combined ex_combined) = [''B'']
   \<and> map fst (combined ex_combined_after) = [''A'', ''B'']
   \<and> sorted (map (\<lambda>i. the (index_of (sorted_version_file_ids ex_registry)
                                 (cc_version_file_id (snd i)))) (combined ex_combined_after))"
proof -
  let ?run = "Combined_update ex_env ex_registry ex_jar_descs ex_combined ex_world_empty"
  have a: "fst ?run = Inr (ex_combined_after, True)"
    by code_simp
  then have b: "?run = (Inr (ex_combined_after, True), snd ?run)"
    by (metis prod.collapse)
  have c: "map fst (combined ex_combined) = [''B'']"
    "map fst (combined ex_combined_after) = [''A'', ''B'']"
    by (simp_all add: ex_combined_def ex_combined_after_def)
  from Combined_update_order [OF b] a c show ?thesis
    by blast
qed

text \<open>
  C6. When the stored fabric_timestamp and jar_descs_timestamp equal the current time
  stamps of the registry and of the description source, reconcile returns false with the
  combined root as it was and the world as it was: nothing fetched, nothing merged.
\<close>

theorem Combined_update_short_circuit:
  assumes "c_fabric_timestamp self = f_timestamp fabric"
    and "c_jar_descs_timestamp self = jd_timestamp jar_descs"
  shows "Combined_update env fabric jar_descs self w = (Inr (self, False), w)"
  using assms by (rule Combined_update_short_circuit_eq)

theorem Combined_update_short_circuit_witness:
  "c_fabric_timestamp ex_combined_after = f_timestamp ex_registry
   \<and> c_jar_descs_timestamp ex_combined_after = jd_timestamp ex_jar_descs
   \<and> Combined_update ex_env ex_registry ex_jar_descs ex_combined_after ex_world_empty
       = (Inr (ex_combined_after, False), ex_world_empty)"
proof -
  have a: "c_fabric_timestamp ex_combined_after = f_timestamp ex_registry"
    by (simp add: ex_combined_after_def ex_registry_def)
  have b: "c_jar_descs_timestamp ex_combined_after = jd_timestamp ex_jar_descs"
    by (simp add: ex_combined_after_def ex_jar_descs_def)
  from Combined_update_short_circuit [OF a b] a b show ?thesis
    by blast
qed

text \<open>
  C7. A successful run of the reconciler script followed by a second run on the same
  registry and description source: the second run reports not dirty and leaves the
  combined document and the world as the first run left them. In memory, every
  successful pass ends with both gating time stamps equal to the sources' (also when it
  reports not dirty), so the same object reconciled again short-circuits.
\<close>

theorem Combined_update_idempotent:
  "(Combined_main env fabric jar_descs now doc w = (Inr d, doc', w') \<longrightarrow>
      Combined_main env fabric jar_descs now' doc' w' = (Inr False, doc', w'))
   \<and> (Combined_update env fabric jar_descs self w = (Inr (self', d), w') \<longrightarrow>
        c_fabric_timestamp self' = f_timestamp fabric
        \<and> c_jar_descs_timestamp self' = jd_timestamp jar_descs
        \<and> Combined_update env fabric jar_descs self' w' = (Inr (self', False), w'))"
proof (intro conjI impI)
  assume m: "Combined_main env fabric jar_descs now doc w = (Inr d, doc', w')"
  then obtain c dirty where
    u: "Combined_update env fabric jar_descs doc w = (Inr (c, dirty), w')" and
    r: "if dirty then doc' = Combined_save now c else doc' = doc"
    by (auto simp: Combined_main_def split: prod.splits sum.splits if_splits)
  show "Combined_main env fabric jar_descs now' doc' w' = (Inr False, doc', w')"
  proof (cases dirty)
    case True
    with r have "doc' = Combined_save now c" by simp
    with Combined_update_timestamps [OF u]
    have "c_fabric_timestamp doc' = f_timestamp fabric"
      "c_jar_descs_timestamp doc' = jd_timestamp jar_descs"
      by (simp_all add: Combined_save_def)
    from Combined_update_short_circuit_eq [OF this] show ?thesis
      by (simp add: Combined_main_def)
  next
    case False
    with r have d: "doc' = doc" by simp
    from u False Combined_update_clean [of env fabric jar_descs doc w c w'] have "w' = w"
      by simp
    with u False d show ?thesis
      by (simp add: Combined_main_def)
  qed
next
  assume u: "Combined_update env fabric jar_descs self w = (Inr (self', d), w')"
  note t = Combined_update_timestamps [OF u]
  from t show "c_fabric_timestamp self' = f_timestamp fabric" by simp
  from t show "c_jar_descs_timestamp self' = jd_timestamp jar_descs" by simp
  from t show "Combined_update env fabric jar_descs self' w' = (Inr (self', False), w')"
    by (simp add: Combined_update_short_circuit_eq)
qed

theorem Combined_update_idempotent_witness:
  "fst (Combined_main ex_env ex_registry ex_jar_descs 9 ex_combined ex_world_empty) = Inr True
   \<and> fst (snd (Combined_main ex_env ex_registry ex_jar_descs 9 ex_combined ex_world_empty))
       = Combined_save 9 ex_combined_after
   \<and> fst (Combined_update ex_env ex_registry ex_jar_descs ex_combined ex_world_empty)
       = Inr (ex_combined_after, True)
   \<and> Combined_main ex_env ex_registry ex_jar_descs 10 (Combined_save 9 ex_combined_after)
        (snd (snd (Combined_main ex_env ex_registry ex_jar_descs 9 ex_combined ex_world_empty)))
       = (Inr False, Combined_save 9 ex_combined_after,
          snd (snd (Combined_main ex_env ex_registry ex_jar_descs 9 ex_combined ex_world_empty)))
   \<and> Combined_update ex_env ex_registry ex_jar_descs ex_combined_after
        (snd (Combined_update ex_env ex_registry ex_jar_descs ex_combined ex_world_empty))
       = (Inr (ex_combined_after, False),
          snd (Combined_update ex_env ex_registry ex_jar_descs ex_combined ex_world_empty))"
proof -
  let ?main = "Combined_main ex_env ex_registry ex_jar_descs 9 ex_combined ex_world_empty"
  let ?run = "Combined_update ex_env ex_registry ex_jar_descs ex_combined ex_world_empty"
  have a: "fst ?main = Inr True"
    by code_simp
  have b: "fst (snd ?main) = Combined_save 9 ex_combined_after"
    by code_simp
  have c: "fst ?run = Inr (ex_combined_after, True)"
    by code_simp
  from a b have m: "?main = (Inr True, Combined_save 9 ex_combined_after, snd (snd ?main))"
    by (metis prod.collapse)
  from c have u: "?run = (Inr (ex_combined_after, True), snd ?run)"
    by (metis prod.collapse)
  from Combined_update_idempotent
    [of ex_env ex_registry ex_jar_descs 9 ex_combined ex_world_empty True
        "Combined_save 9 ex_combined_after" "snd (snd ?main)" 10]
  have 1: "Combined_main ex_env ex_registry ex_jar_descs 10 (Combined_save 9 ex_combined_after)
        (snd (snd ?main)) = (Inr False, Combined_save 9 ex_combined_after, snd (snd ?main))"
    using m by blast
  from Combined_update_idempotent
    [of ex_env ex_registry ex_jar_descs _ _ ex_world_empty True _ "snd ?run" _
        ex_combined ex_combined_after]
  have 2: "Combined_update ex_env ex_registry ex_jar_descs ex_combined_after (snd ?run)
       = (Inr (ex_combined_after, False), snd ?run)"
    using u by blast
  from a b c 1 2 show ?thesis
    by blast
qed

section \<open>The index projector\<close>

lemma update_fresh_key: "k \<notin> fst ` set al \<Longrightarrow> AList.update k v al = al @ [(k, v)]"
  by (induction al) auto

lemma foldl_update_distinct:
  "distinct (map fst xs) \<Longrightarrow> fst ` set acc \<inter> fst ` set xs = {} \<Longrightarrow>
   foldl (\<lambda>d item. AList.update (fst item) (f (snd item)) d) acc xs
     = acc @ map (\<lambda>item. (fst item, f (snd item))) xs"
proof (induction xs arbitrary: acc)
  case Nil
  then show ?case by simp
next
  case (Cons x xs)
  from Cons.prems have x: "fst x \<notin> fst ` set acc" by auto
  have "fst ` set (acc @ [(fst x, f (snd x))]) \<inter> fst ` set xs = {}"
    using Cons.prems by auto
  with Cons.IH [of "acc @ [(fst x, f (snd x))]"] Cons.prems(1) show ?case
    by (simp add: update_fresh_key [OF x])
qed

lemma foldl_insert_distinct:
  "distinct (map fst xs) \<Longrightarrow> fst ` set acc \<inter> fst ` set xs = {} \<Longrightarrow>
   foldl (\<lambda>vs item. if fst item \<notin> fst ` set vs
                      then AList.update (fst item) (f (snd item)) vs else vs) acc xs
     = acc @ map (\<lambda>item. (fst item, f (snd item))) xs"
proof (induction xs arbitrary: acc)
  case Nil
  then show ?case by simp
next
  case (Cons x xs)
  from Cons.prems have x: "fst x \<notin> fst ` set acc" by auto
  have "fst ` set (acc @ [(fst x, f (snd x))]) \<inter> fst ` set xs = {}"
    using Cons.prems by auto
  with Cons.IH [of "acc @ [(fst x, f (snd x))]"] Cons.prems(1) x show ?case
    by (simp add: update_fresh_key [OF x])
qed

text \<open>
  C9. The index projector returns false and keeps the projection when its time stamp
  equals the combined document's. Otherwise it returns true with the time stamp of the
  combined document and a versions map that holds, in the combined document's order, one
  IndexVersion per CombinedVersion and nothing of the prior map; each IndexVersion copies
  the yarn build and holds one IndexJar per jar, whose URL is the base URL, a slash and
  the jar's relative output path.
\<close>

theorem Index_update_rebuild:
  "(i_timestamp self = c_timestamp combined_root \<longrightarrow>
      Index_update combined_root self = (self, False))
   \<and> (i_timestamp self \<noteq> c_timestamp combined_root \<longrightarrow>
      distinct (map fst (combined combined_root)) \<longrightarrow>
      Index_update combined_root self
        = (\<lparr>i_timestamp = c_timestamp combined_root,
            versions = map (\<lambda>item. (fst item, from_combined (snd item)))
                         (combined combined_root)\<rparr>, True))
   \<and> iv_yarn_build (from_combined c) = cy_build (cc_yarn c)
   \<and> (distinct (map fst (cc_jars c)) \<longrightarrow>
        iv_jars (from_combined c)
          = map (\<lambda>item. (fst item, from_combined_jar (snd item) (cy_build (cc_yarn c))))
              (cc_jars c))
   \<and> ij_url (from_combined_jar jar b) = BASE_URL @ ''/'' @ out_path jar
   \<and> ij_yarn_build (from_combined_jar jar b) = b"
proof (intro conjI impI)
  assume "i_timestamp self = c_timestamp combined_root"
  then show "Index_update combined_root self = (self, False)"
    by (simp add: Index_update_def)
next
  assume a: "i_timestamp self \<noteq> c_timestamp combined_root"
    and d: "distinct (map fst (combined combined_root))"
  have "foldl (\<lambda>vs item. if fst item \<notin> fst ` set vs
                      then AList.update (fst item) (from_combined (snd item)) vs else vs)
          [] (combined combined_root)
        = map (\<lambda>item. (fst item, from_combined (snd item))) (combined combined_root)"
    using foldl_insert_distinct [OF d, of "[]" from_combined] by simp
  with a show "Index_update combined_root self
        = (\<lparr>i_timestamp = c_timestamp combined_root,
            versions = map (\<lambda>item. (fst item, from_combined (snd item)))
                         (combined combined_root)\<rparr>, True)"
    by (simp add: Index_update_def)
next
  show "iv_yarn_build (from_combined c) = cy_build (cc_yarn c)"
    by (simp add: from_combined_def)
next
  assume d: "distinct (map fst (cc_jars c))"
  show "iv_jars (from_combined c)
          = map (\<lambda>item. (fst item, from_combined_jar (snd item) (cy_build (cc_yarn c))))
              (cc_jars c)"
    using foldl_update_distinct [OF d, of "[]" "\<lambda>j. from_combined_jar j (cy_build (cc_yarn c))"]
    by (simp add: from_combined_def)
next
  show "ij_url (from_combined_jar jar b) = BASE_URL @ ''/'' @ out_path jar"
    by (simp add: from_combined_jar_def Let_def)
next
  show "ij_yarn_build (from_combined_jar jar b) = b"
    by (simp add: from_combined_jar_def Let_def)
qed

theorem Index_update_rebuild_witness:
  "i_timestamp (fst (Index_update ex_combined_after ex_index)) = c_timestamp ex_combined_after
   \<and> Index_update ex_combined_after (fst (Index_update ex_combined_after ex_index))
       = (fst (Index_update ex_combined_after ex_index), False)
   \<and> i_timestamp ex_index \<noteq> c_timestamp ex_combined_after
   \<and> distinct (map fst (combined ex_combined_after))
   \<and> Index_update ex_combined_after ex_index
       = (\<lparr>i_timestamp = 1,
           versions = [(''A'', from_combined ex_cc), (''B'', from_combined ex_cc_B)]\<rparr>, True)
   \<and> distinct (map fst (cc_jars ex_cc))
   \<and> iv_jars (from_combined ex_cc)
       = [(''client'', from_combined_jar (ex_jar ''client'' ''c1'') 5),
          (''server'', from_combined_jar (ex_jar ''server'' ''s1'') 5)]"
proof -
  have a: "i_timestamp ex_index \<noteq> c_timestamp ex_combined_after"
    by (simp add: ex_index_def ex_combined_after_def)
  have b: "distinct (map fst (combined ex_combined_after))"
    by (simp add: ex_combined_after_def)
  have c: "distinct (map fst (cc_jars ex_cc))"
    by (simp add: ex_cc_def)
  note r = Index_update_rebuild [of ex_index ex_combined_after ex_cc]
  from r a b have 1: "Index_update ex_combined_after ex_index
       = (\<lparr>i_timestamp = 1,
           versions = [(''A'', from_combined ex_cc), (''B'', from_combined ex_cc_B)]\<rparr>, True)"
    by (simp add: ex_combined_after_def)
  from r c have 2: "iv_jars (from_combined ex_cc)
       = [(''client'', from_combined_jar (ex_jar ''client'' ''c1'') 5),
          (''server'', from_combined_jar (ex_jar ''server'' ''s1'') 5)]"
    by (simp add: ex_cc_def ex_yarn_def from_fabric_yarn_def ex_entry_def)
  have 3: "i_timestamp (fst (Index_update ex_combined_after ex_index))
             = c_timestamp ex_combined_after"
    unfolding 1 by (simp add: ex_combined_after_def)
  from Index_update_rebuild [of "fst (Index_update ex_combined_after ex_index)" ex_combined_after] 3
  have 4: "Index_update ex_combined_after (fst (Index_update ex_combined_after ex_index))
       = (fst (Index_update ex_combined_after ex_index), False)"
    by blast
  from a b c 1 2 3 4 show ?thesis
    by blast
qed


section \<open>One update run\<close>





end
